theory Spec2Isabelle
  imports Complex_Main "HOL-Library.Monad_Syntax"
begin

section \<open>JavaScript numbers\<close>

text \<open>
  Numbers are modelled as reals: rounding and overflow of IEEE doubles are outside the
  model.  The two places where exact arithmetic itself leaves the finite numbers are kept
  visible: a division by zero and a square root of a negative number have no finite
  result, which is the value \<open>None\<close>.
\<close>

definition js_div :: "real \<Rightarrow> real \<Rightarrow> real option" where
  "js_div a b = (if b = 0 then None else Some (a / b))"

definition js_sqrt :: "real \<Rightarrow> real option" where
  "js_sqrt a = (if a < 0 then None else Some (sqrt a))"

text \<open>\<^verbatim>\<open>v || 0\<close> on an optional numeric field: \<^verbatim>\<open>undefined\<close> and \<open>0\<close> both give \<open>0\<close>.\<close>

definition orZero :: "real option \<Rightarrow> real" where
  "orZero v = (case v of None \<Rightarrow> 0 | Some r \<Rightarrow> r)"

text \<open>
  \<^verbatim>\<open>Math.sqrt(s) || 1\<close>: the root, replaced by \<open>1\<close> when it is falsy, that is when it is
  \<open>0\<close> or not a number.
\<close>

definition sqrtOrOne :: "real \<Rightarrow> real" where
  "sqrtOrOne s = (case js_sqrt s of None \<Rightarrow> 1 | Some r \<Rightarrow> if r = 0 then 1 else r)"

text \<open>
  A loop over a list.  The model does not follow a computation past a value that is not
  finite: a body with the result \<open>None\<close> makes the whole loop \<open>None\<close>.
\<close>

fun foldM :: "('a \<Rightarrow> 's \<Rightarrow> 's option) \<Rightarrow> 'a list \<Rightarrow> 's \<Rightarrow> 's option" where
  "foldM f [] s = Some s"
| "foldM f (a # as) s = (case f a s of None \<Rightarrow> None | Some s' \<Rightarrow> foldM f as s')"

text \<open>
  \<^verbatim>\<open>Array.prototype.find\<close> returns a reference to the first element satisfying the
  predicate; the reference is modelled by the element's index.
\<close>

fun findIndex :: "('a \<Rightarrow> bool) \<Rightarrow> 'a list \<Rightarrow> nat option" where
  "findIndex P [] = None"
| "findIndex P (a # as) = (if P a then Some 0 else map_option Suc (findIndex P as))"

section \<open>Data model\<close>

datatype NodeType = Note | Url | File

text \<open>
  A JavaScript string is the list of its UTF-16 code units.  The label of a node and the
  search string, whose contents the renderer inspects, are such lists.  The strings that
  the program only compares as a whole or passes on (ids, colours, fonts) are strings of
  characters.
\<close>

type_synonym jsString = "nat list"

record Node =
  node_id :: string
  node_label :: jsString
  node_content :: string
  node_type :: NodeType
  node_timestamp :: real
  node_x :: "real option"
  node_y :: "real option"
  node_vx :: "real option"
  node_vy :: "real option"

record Connection =
  source :: string
  target :: string
  strength :: real
  reason :: string
  isSurprising :: bool

record Point =
  point_x :: real
  point_y :: real

record Size =
  width :: real
  height :: real

record CanvasState =
  zoom :: real
  pan :: Point
  isDraggingCanvas :: bool
  draggedNode :: "string option"
  lastMousePos :: Point
  popupPosition :: "Point option"
  canvasSize :: Size

section \<open>GraphSimulation\<close>

text \<open>The mutable private fields of the class; the \<^verbatim>\<open>readonly\<close> ones are constants.\<close>

record GraphSimulation =
  alpha :: real
  repulsion :: real
  attraction :: real
  damping :: real

definition baseAlpha :: real where "baseAlpha = 0.3"
definition minAlpha :: real where "minAlpha = 0.05"
definition cooling :: real where "cooling = 0.995"
definition centerForce :: real where "centerForce = 0.0025"

definition newGraphSimulation :: GraphSimulation where
  "newGraphSimulation = \<lparr>alpha = baseAlpha, repulsion = 5000, attraction = 0.01, damping = 0.8\<rparr>"


definition isDragged :: "Node \<Rightarrow> string option \<Rightarrow> bool" where
  "isDragged node draggedNodeId = (Some (node_id node) = draggedNodeId)"

definition applyCenteringForce :: "GraphSimulation \<Rightarrow> string option \<Rightarrow> Node list \<Rightarrow> Node list" where
  "applyCenteringForce sim draggedNodeId nodes =
     (if centerForce \<le> 0 then nodes
      else map (\<lambda>node.
             if isDragged node draggedNodeId then node
             else node\<lparr>node_vx := Some (orZero (node_vx node) - orZero (node_x node) * centerForce * alpha sim),
                       node_vy := Some (orZero (node_vy node) - orZero (node_y node) * centerForce * alpha sim)\<rparr>)
           nodes)"

text \<open>Lines 57 to 63: the force between \<open>node1\<close> and \<open>node2\<close>, as the pair \<open>(fx, fy)\<close>.\<close>

definition repulsionForce :: "GraphSimulation \<Rightarrow> Node \<Rightarrow> Node \<Rightarrow> (real \<times> real) option" where
  "repulsionForce sim node1 node2 = do {
     let dx = orZero (node_x node2) - orZero (node_x node1);
     let dy = orZero (node_y node2) - orZero (node_y node1);
     let dist = sqrtOrOne (dx * dx + dy * dy);
     force \<leftarrow> js_div (repulsion sim * alpha sim) (dist * dist);
     ux \<leftarrow> js_div dx dist;
     uy \<leftarrow> js_div dy dist;
     Some (ux * force, uy * force)
   }"

text \<open>
  The body of the inner loop for the indices \<open>i < j\<close>.  The loops keep both indices below
  the length of the array, and distinct, so the two elements are different objects.
\<close>

definition repulsionPair ::
  "GraphSimulation \<Rightarrow> string option \<Rightarrow> nat \<Rightarrow> nat \<Rightarrow> Node list \<Rightarrow> Node list option" where
  "repulsionPair sim draggedNodeId i j nodes = do {
     let node1 = nodes ! i;
     let node2 = nodes ! j;
     (fx, fy) \<leftarrow> repulsionForce sim node1 node2;
     let nodes1 = (if \<not> isDragged node1 draggedNodeId
                   then nodes[i := node1\<lparr>node_vx := Some (orZero (node_vx node1) - fx),
                                          node_vy := Some (orZero (node_vy node1) - fy)\<rparr>]
                   else nodes);
     let nodes2 = (if \<not> isDragged node2 draggedNodeId
                   then nodes1[j := node2\<lparr>node_vx := Some (orZero (node_vx node2) + fx),
                                           node_vy := Some (orZero (node_vy node2) + fy)\<rparr>]
                   else nodes1);
     Some nodes2
   }"

definition applyRepulsionForces ::
  "GraphSimulation \<Rightarrow> string option \<Rightarrow> Node list \<Rightarrow> Node list option" where
  "applyRepulsionForces sim draggedNodeId nodes =
     foldM (\<lambda>i ns. foldM (repulsionPair sim draggedNodeId i) [Suc i ..< length ns] ns)
           [0 ..< length nodes] nodes"

text \<open>Lines 83 to 89: the spring force of one connection on its two endpoints.\<close>

definition attractionForce ::
  "GraphSimulation \<Rightarrow> Connection \<Rightarrow> Node \<Rightarrow> Node \<Rightarrow> (real \<times> real) option" where
  "attractionForce sim conn src tgt = do {
     let dx = orZero (node_x tgt) - orZero (node_x src);
     let dy = orZero (node_y tgt) - orZero (node_y src);
     let dist = sqrtOrOne (dx * dx + dy * dy);
     let force = dist * attraction sim * (if strength conn = 0 then 0.1 else strength conn) * alpha sim;
     ux \<leftarrow> js_div dx dist;
     uy \<leftarrow> js_div dy dist;
     Some (ux * force, uy * force)
   }"

text \<open>
  The body of the loop over the connections.  Source and target may be the same object
  (a connection from a node to itself), so the target is read again after the source has
  been updated.
\<close>

definition attractConnection ::
  "GraphSimulation \<Rightarrow> string option \<Rightarrow> Connection \<Rightarrow> Node list \<Rightarrow> Node list option" where
  "attractConnection sim draggedNodeId conn nodes =
     (case findIndex (\<lambda>n. node_id n = source conn) nodes of
        None \<Rightarrow> Some nodes
      | Some s \<Rightarrow>
         (case findIndex (\<lambda>n. node_id n = target conn) nodes of
            None \<Rightarrow> Some nodes
          | Some t \<Rightarrow> do {
              (fx, fy) \<leftarrow> attractionForce sim conn (nodes ! s) (nodes ! t);
              let src = nodes ! s;
              let nodes1 = (if \<not> isDragged src draggedNodeId
                            then nodes[s := src\<lparr>node_vx := Some (orZero (node_vx src) + fx),
                                                 node_vy := Some (orZero (node_vy src) + fy)\<rparr>]
                            else nodes);
              let tgt = nodes1 ! t;
              let nodes2 = (if \<not> isDragged tgt draggedNodeId
                            then nodes1[t := tgt\<lparr>node_vx := Some (orZero (node_vx tgt) - fx),
                                                  node_vy := Some (orZero (node_vy tgt) - fy)\<rparr>]
                            else nodes1);
              Some nodes2
            }))"

definition applyAttractionForces ::
  "GraphSimulation \<Rightarrow> Connection list \<Rightarrow> string option \<Rightarrow> Node list \<Rightarrow> Node list option" where
  "applyAttractionForces sim connections draggedNodeId nodes =
     foldM (attractConnection sim draggedNodeId) connections nodes"

definition snap :: "real \<Rightarrow> real" where
  "snap v = (if \<bar>v\<bar> < 0.0001 then 0 else v)"

definition updateNode :: "GraphSimulation \<Rightarrow> Node \<Rightarrow> Node" where
  "updateNode sim node =
     node\<lparr>node_x := Some (orZero (node_x node) + orZero (node_vx node)),
          node_y := Some (orZero (node_y node) + orZero (node_vy node)),
          node_vx := Some (snap (orZero (node_vx node) * damping sim)),
          node_vy := Some (snap (orZero (node_vy node) * damping sim))\<rparr>"

definition updatePositions :: "GraphSimulation \<Rightarrow> string option \<Rightarrow> Node list \<Rightarrow> Node list" where
  "updatePositions sim draggedNodeId nodes =
     map (\<lambda>node. if \<not> isDragged node draggedNodeId then updateNode sim node else node) nodes"

text \<open>
  One tick.  The result is the simulation object and the node array after the call, or
  \<open>None\<close> when a force computation has no finite result and the tick would store a
  value that is not a finite number in a node.
\<close>

definition simulate ::
  "GraphSimulation \<Rightarrow> Node list \<Rightarrow> Connection list \<Rightarrow> string option
     \<Rightarrow> (GraphSimulation \<times> Node list) option" where
  "simulate sim nodes connections draggedNodeId = do {
     let nodes1 = applyCenteringForce sim draggedNodeId nodes;
     nodes2 \<leftarrow> applyRepulsionForces sim draggedNodeId nodes1;
     nodes3 \<leftarrow> applyAttractionForces sim connections draggedNodeId nodes2;
     let nodes4 = updatePositions sim draggedNodeId nodes3;
     Some (sim\<lparr>alpha := max minAlpha (alpha sim * cooling)\<rparr>, nodes4)
   }"

text \<open>\<open>n\<close> ticks in a row with the same connections and the same dragged node.\<close>

fun simulateN ::
  "nat \<Rightarrow> GraphSimulation \<Rightarrow> Node list \<Rightarrow> Connection list \<Rightarrow> string option
     \<Rightarrow> (GraphSimulation \<times> Node list) option" where
  "simulateN 0 sim nodes connections draggedNodeId = Some (sim, nodes)"
| "simulateN (Suc n) sim nodes connections draggedNodeId =
     (case simulate sim nodes connections draggedNodeId of
        None \<Rightarrow> None
      | Some (sim', nodes') \<Rightarrow> simulateN n sim' nodes' connections draggedNodeId)"






section \<open>Interaction controller\<close>

text \<open>The initial state of the hook \<^verbatim>\<open>useCanvasInteraction\<close>.\<close>

definition defaultCanvasState :: CanvasState where
  "defaultCanvasState = \<lparr>zoom = 1, pan = \<lparr>point_x = 0, point_y = 0\<rparr>, isDraggingCanvas = False,
     draggedNode = None, lastMousePos = \<lparr>point_x = 0, point_y = 0\<rparr>, popupPosition = None,
     canvasSize = \<lparr>width = 800, height = 600\<rparr>\<rparr>"

text \<open>The part of \<^verbatim>\<open>getBoundingClientRect()\<close> that the hook reads.\<close>

record Rect =
  rect_left :: real
  rect_top :: real

text \<open>
  The local variables \<^verbatim>\<open>canvasX\<close> and \<^verbatim>\<open>canvasY\<close> of \<^verbatim>\<open>getNodeAtPosition\<close> and of
  \<^verbatim>\<open>handleMouseMove\<close>: the pointer in world coordinates.
\<close>

definition canvasX :: "CanvasState \<Rightarrow> Rect \<Rightarrow> real \<Rightarrow> real option" where
  "canvasX canvasState rect screenX =
     js_div (screenX - rect_left rect - width (canvasSize canvasState) / 2 - point_x (pan canvasState))
            (zoom canvasState)"

definition canvasY :: "CanvasState \<Rightarrow> Rect \<Rightarrow> real \<Rightarrow> real option" where
  "canvasY canvasState rect screenY =
     js_div (screenY - rect_top rect - height (canvasSize canvasState) / 2 - point_y (pan canvasState))
            (zoom canvasState)"

text \<open>The predicate given to \<^verbatim>\<open>nodes.find\<close>.\<close>

definition withinPickRadius :: "real \<Rightarrow> real \<Rightarrow> Node \<Rightarrow> bool" where
  "withinPickRadius cx cy node =
     (let dx = orZero (node_x node) - cx;
          dy = orZero (node_y node) - cy
      in case js_sqrt (dx * dx + dy * dy) of None \<Rightarrow> False | Some d \<Rightarrow> d < 12)"

text \<open>
  \<open>container\<close> is \<^verbatim>\<open>containerRef.current\<close>, given by its bounding rectangle when it is
  mounted.  With a zoom of \<open>0\<close> the pointer has no finite world coordinate, every
  comparison of the predicate is false and no node is found.
\<close>

definition getNodeAtPosition ::
  "CanvasState \<Rightarrow> Rect option \<Rightarrow> real \<Rightarrow> real \<Rightarrow> Node list \<Rightarrow> Node option" where
  "getNodeAtPosition canvasState container screenX screenY nodes =
     (case container of
        None \<Rightarrow> None
      | Some rect \<Rightarrow>
         (case canvasX canvasState rect screenX of
            None \<Rightarrow> None
          | Some cx \<Rightarrow>
             (case canvasY canvasState rect screenY of
                None \<Rightarrow> None
              | Some cy \<Rightarrow> find (withinPickRadius cx cy) nodes)))"

record WheelEvent =
  metaKey :: bool
  ctrlKey :: bool
  deltaY :: real

text \<open>The new canvas state, and whether \<^verbatim>\<open>preventDefault\<close> has been called on the event.\<close>

definition handleWheel :: "WheelEvent \<Rightarrow> CanvasState \<Rightarrow> CanvasState \<times> bool" where
  "handleWheel event prev =
     (if metaKey event \<or> ctrlKey event
      then (let delta = (if deltaY event > 0 then 0.9 else 1.1)
            in (prev\<lparr>zoom := max 0.5 (min 3 (zoom prev * delta))\<rparr>, True))
      else (prev, False))"

fun handleWheels :: "WheelEvent list \<Rightarrow> CanvasState \<Rightarrow> CanvasState" where
  "handleWheels [] canvasState = canvasState"
| "handleWheels (event # events) canvasState = handleWheels events (fst (handleWheel event canvasState))"

section \<open>GraphRenderer\<close>

text \<open>
  The renderer only talks to a \<^verbatim>\<open>CanvasRenderingContext2D\<close>; what it does is the
  sequence of calls and property assignments it makes on that context.
\<close>

datatype CanvasCall =
    Save
  | Restore
  | Translate real real
  | Scale real real
  | ClearRect real real real real
  | BeginPath
  | MoveTo real real
  | LineTo real real
  | Arc real real real real real
  | SetStrokeStyle string
  | SetFillStyle string
  | SetLineWidth real
  | SetLineDash "real list"
  | SetGlobalAlpha real
  | SetFont string
  | SetTextAlign string
  | Stroke
  | Fill
  | FillText jsString real real

definition setupTransform :: "real \<Rightarrow> real \<Rightarrow> real \<Rightarrow> Point \<Rightarrow> CanvasCall list" where
  "setupTransform w h z p =
     [Save, Translate (w / 2 + point_x p) (h / 2 + point_y p), Scale z z]"

text \<open>
  The current transformation matrix of a 2D context, as the canvas standard defines it:
  a point \<open>(px, py)\<close> of the drawing is painted at
  \<open>(m_a * px + m_c * py + m_e, m_b * px + m_d * py + m_f)\<close>, and \<^verbatim>\<open>translate\<close> and
  \<^verbatim>\<open>scale\<close> multiply the matrix on the right.  \<^verbatim>\<open>save\<close> and \<^verbatim>\<open>restore\<close> push and
  pop it.
\<close>

record Matrix =
  m_a :: real
  m_b :: real
  m_c :: real
  m_d :: real
  m_e :: real
  m_f :: real

definition identityMatrix :: Matrix where
  "identityMatrix = \<lparr>m_a = 1, m_b = 0, m_c = 0, m_d = 1, m_e = 0, m_f = 0\<rparr>"

fun transformCall :: "CanvasCall \<Rightarrow> Matrix \<times> Matrix list \<Rightarrow> Matrix \<times> Matrix list" where
  "transformCall Save (m, stack) = (m, m # stack)"
| "transformCall Restore (m, stack) = (case stack of [] \<Rightarrow> (m, []) | m' # stack' \<Rightarrow> (m', stack'))"
| "transformCall (Translate tx ty) (m, stack) =
     (m\<lparr>m_e := m_a m * tx + m_c m * ty + m_e m, m_f := m_b m * tx + m_d m * ty + m_f m\<rparr>, stack)"
| "transformCall (Scale sx sy) (m, stack) =
     (m\<lparr>m_a := m_a m * sx, m_b := m_b m * sx, m_c := m_c m * sy, m_d := m_d m * sy\<rparr>, stack)"
| "transformCall _ (m, stack) = (m, stack)"

definition applyMatrix :: "Matrix \<Rightarrow> real \<times> real \<Rightarrow> real \<times> real" where
  "applyMatrix m p = (m_a m * fst p + m_c m * snd p + m_e m, m_b m * fst p + m_d m * snd p + m_f m)"

text \<open>
  Where a world point is painted on the page under the camera of \<open>canvasState\<close>: the
  matrix that \<open>setupTransform\<close> leaves on a fresh context, applied to the point, from the
  top left corner of the container.
\<close>

definition toScreen :: "CanvasState \<Rightarrow> Rect \<Rightarrow> real \<times> real \<Rightarrow> real \<times> real" where
  "toScreen canvasState rect p =
     (let calls = setupTransform (width (canvasSize canvasState)) (height (canvasSize canvasState))
                    (zoom canvasState) (pan canvasState);
          m = fst (fold transformCall calls (identityMatrix, []));
          q = applyMatrix m p
      in (rect_left rect + fst q, rect_top rect + snd q))"

text \<open>
  \<^verbatim>\<open>String.prototype.includes\<close>: whether the code units of \<open>t\<close> occur in \<open>s\<close> as one
  contiguous run.
\<close>

fun startsWith :: "'a list \<Rightarrow> 'a list \<Rightarrow> bool" where
  "startsWith s [] = True"
| "startsWith [] (c # cs) = False"
| "startsWith (a # as) (c # cs) = (a = c \<and> startsWith as cs)"

fun includesStr :: "'a list \<Rightarrow> 'a list \<Rightarrow> bool" where
  "includesStr [] t = (t = [])"
| "includesStr (a # as) t = (startsWith (a # as) t \<or> includesStr as t)"

definition renderConnection :: "bool \<Rightarrow> Node list \<Rightarrow> real \<Rightarrow> Connection \<Rightarrow> CanvasCall list" where
  "renderConnection isDark nodes filterStrength conn =
     (if strength conn < filterStrength then []
      else
        (case find (\<lambda>n. node_id n = source conn) nodes of
           None \<Rightarrow> []
         | Some src \<Rightarrow>
            (case find (\<lambda>n. node_id n = target conn) nodes of
               None \<Rightarrow> []
             | Some tgt \<Rightarrow>
                 [BeginPath,
                  MoveTo (orZero (node_x src)) (orZero (node_y src)),
                  LineTo (orZero (node_x tgt)) (orZero (node_y tgt))]
                 @ (if isSurprising conn
                    then [SetStrokeStyle (if isDark then ''#fbbf24'' else ''#f59e0b''),
                          SetLineWidth 2, SetLineDash [5, 5]]
                    else [SetStrokeStyle (if isDark then ''#4b5563'' else ''#d1d5db''),
                          SetLineWidth 1, SetLineDash []])
                 @ [SetGlobalAlpha (strength conn), Stroke, SetGlobalAlpha 1])))"

definition renderConnections :: "bool \<Rightarrow> Connection list \<Rightarrow> Node list \<Rightarrow> real \<Rightarrow> CanvasCall list" where
  "renderConnections isDark connections nodes filterStrength =
     concat (map (renderConnection isDark nodes filterStrength) connections)"

text \<open>
  \<^verbatim>\<open>String.prototype.toLowerCase\<close> belongs to the host and folds the letters of all of
  Unicode.  It is not modelled: the renderer takes it as the parameter \<open>toLowerCase\<close>, and
  everything proved about the renderer holds for every function in its place.
\<close>

definition isSearchMatch :: "(jsString \<Rightarrow> jsString) \<Rightarrow> jsString \<Rightarrow> Node \<Rightarrow> bool" where
  "isSearchMatch toLowerCase searchQuery node =
     (searchQuery \<noteq> [] \<and> includesStr (toLowerCase (node_label node)) (toLowerCase searchQuery))"

text \<open>The value assigned to \<^verbatim>\<open>fillStyle\<close> before the circle of a node is filled.\<close>

definition nodeFillStyle ::
  "(jsString \<Rightarrow> jsString) \<Rightarrow> bool \<Rightarrow> string option \<Rightarrow> string option \<Rightarrow> jsString \<Rightarrow> Node \<Rightarrow> string" where
  "nodeFillStyle toLowerCase isDark hoveredNodeId selectedNodeId searchQuery node =
     (let isSelected = (selectedNodeId = Some (node_id node))
      in if isSearchMatch toLowerCase searchQuery node then (if isDark then ''#3b82f6'' else ''#2563eb'')
         else if isSelected then (if isDark then ''#8b5cf6'' else ''#7c3aed'')
         else (if isDark then ''#6366f1'' else ''#4f46e5''))"

definition renderNode ::
  "(jsString \<Rightarrow> jsString) \<Rightarrow> bool \<Rightarrow> string option \<Rightarrow> string option \<Rightarrow> jsString \<Rightarrow> real \<Rightarrow> Node
     \<Rightarrow> CanvasCall list" where
  "renderNode toLowerCase isDark hoveredNodeId selectedNodeId searchQuery z node =
     (let isHovered = (hoveredNodeId = Some (node_id node));
          isSelected = (selectedNodeId = Some (node_id node))
      in [BeginPath,
          Arc (orZero (node_x node)) (orZero (node_y node)) (if isHovered then 12 else 10) 0 (pi * 2),
          SetFillStyle (nodeFillStyle toLowerCase isDark hoveredNodeId selectedNodeId searchQuery node),
          Fill]
         @ (if isHovered \<or> isSelected
            then [SetStrokeStyle (if isDark then ''#fff'' else ''#000''), SetLineWidth 2, Stroke]
            else [])
         @ (if isHovered \<or> isSelected \<or> isSearchMatch toLowerCase searchQuery node \<or> z > 1.5
            then [SetFillStyle (if isDark then ''#fff'' else ''#000''),
                  SetFont ''12px system-ui'',
                  SetTextAlign ''center'',
                  FillText (node_label node) (orZero (node_x node)) (orZero (node_y node) - 15)]
            else []))"

definition renderNodes ::
  "(jsString \<Rightarrow> jsString) \<Rightarrow> bool \<Rightarrow> Node list \<Rightarrow> string option \<Rightarrow> string option \<Rightarrow> jsString \<Rightarrow> real
     \<Rightarrow> CanvasCall list" where
  "renderNodes toLowerCase isDark nodes hoveredNodeId selectedNodeId searchQuery z =
     concat (map (renderNode toLowerCase isDark hoveredNodeId selectedNodeId searchQuery z) nodes)"

section \<open>Notions used in the statements and proofs\<close>

text \<open>
  The definitions of this section are not part of the program.  They name the quantities
  that the statements below are about, and the intermediate forms that their proofs use.
\<close>

text \<open>A node after a change of its velocity by \<open>(fx, fy)\<close>; all other fields are kept.\<close>

definition accelerate :: "real \<Rightarrow> real \<Rightarrow> Node \<Rightarrow> Node" where
  "accelerate fx fy node =
     node\<lparr>node_vx := Some (orZero (node_vx node) + fx), node_vy := Some (orZero (node_vy node) + fy)\<rparr>"

text \<open>The Euclidean distance of two nodes, an undefined coordinate counting as \<open>0\<close>.\<close>

definition nodeDistance :: "Node \<Rightarrow> Node \<Rightarrow> real" where
  "nodeDistance a b =
     sqrt ((orZero (node_x b) - orZero (node_x a))\<^sup>2 + (orZero (node_y b) - orZero (node_y a))\<^sup>2)"

text \<open>The pair \<open>(fx, fy)\<close> that \<open>repulsionForce\<close> computes for two nodes.\<close>

definition forceBetween :: "GraphSimulation \<Rightarrow> Node \<Rightarrow> Node \<Rightarrow> real \<times> real" where
  "forceBetween sim a b = (case repulsionForce sim a b of None \<Rightarrow> (0, 0) | Some f \<Rightarrow> f)"

text \<open>
  Both force loops change the array only by assignments of one form: the velocity of the
  node at some index grows by some amount, unless that node is the dragged one.  Such an
  assignment is an impulse \<open>(k, fx, fy)\<close>.
\<close>

definition push :: "string option \<Rightarrow> real \<Rightarrow> real \<Rightarrow> Node \<Rightarrow> Node" where
  "push d fx fy node = (if isDragged node d then node else accelerate fx fy node)"

fun applyImpulse :: "string option \<Rightarrow> nat \<times> real \<times> real \<Rightarrow> Node list \<Rightarrow> Node list" where
  "applyImpulse d (k, fx, fy) nodes = nodes[k := push d fx fy (nodes ! k)]"

text \<open>What the force loops read of a node and never write: its id and its position.\<close>

definition place :: "Node \<Rightarrow> string \<times> real \<times> real" where
  "place node = (node_id node, orZero (node_x node), orZero (node_y node))"

text \<open>The total change of velocity that a list of impulses gives to the index \<open>k\<close>.\<close>

definition impulseX :: "nat \<Rightarrow> (nat \<times> real \<times> real) list \<Rightarrow> real" where
  "impulseX k imps = sum_list (map (\<lambda>p. if fst p = k then fst (snd p) else 0) imps)"

definition impulseY :: "nat \<Rightarrow> (nat \<times> real \<times> real) list \<Rightarrow> real" where
  "impulseY k imps = sum_list (map (\<lambda>p. if fst p = k then snd (snd p) else 0) imps)"

text \<open>The impulses of the repulsion step: two for every pair of indices \<open>i < j\<close>.\<close>

definition pairImpulses :: "GraphSimulation \<Rightarrow> Node list \<Rightarrow> nat \<Rightarrow> nat \<Rightarrow> (nat \<times> real \<times> real) list" where
  "pairImpulses sim ns i j =
     [(i, - fst (forceBetween sim (ns ! i) (ns ! j)), - snd (forceBetween sim (ns ! i) (ns ! j))),
      (j, fst (forceBetween sim (ns ! i) (ns ! j)), snd (forceBetween sim (ns ! i) (ns ! j)))]"

definition repulsionImpulses :: "GraphSimulation \<Rightarrow> Node list \<Rightarrow> (nat \<times> real \<times> real) list" where
  "repulsionImpulses sim ns =
     concat (map (\<lambda>i. concat (map (pairImpulses sim ns i) [Suc i ..< length ns])) [0 ..< length ns])"

text \<open>The Euclidean length of a force vector.\<close>

definition magnitude :: "real \<times> real \<Rightarrow> real" where
  "magnitude f = sqrt ((fst f)\<^sup>2 + (snd f)\<^sup>2)"

text \<open>The pair \<open>(fx, fy)\<close> that \<open>attractionForce\<close> computes for a connection and its endpoints.\<close>

definition springForce :: "GraphSimulation \<Rightarrow> Connection \<Rightarrow> Node \<Rightarrow> Node \<Rightarrow> real \<times> real" where
  "springForce sim conn a b = (case attractionForce sim conn a b of None \<Rightarrow> (0, 0) | Some f \<Rightarrow> f)"

text \<open>The impulses of the attraction step: two for every connection whose endpoints resolve.\<close>

definition connImpulses :: "GraphSimulation \<Rightarrow> Node list \<Rightarrow> Connection \<Rightarrow> (nat \<times> real \<times> real) list" where
  "connImpulses sim ns conn =
     (case findIndex (\<lambda>n. node_id n = source conn) ns of
        None \<Rightarrow> []
      | Some s \<Rightarrow>
         (case findIndex (\<lambda>n. node_id n = target conn) ns of
            None \<Rightarrow> []
          | Some t \<Rightarrow>
             [(s, fst (springForce sim conn (ns ! s) (ns ! t)), snd (springForce sim conn (ns ! s) (ns ! t))),
              (t, - fst (springForce sim conn (ns ! s) (ns ! t)), - snd (springForce sim conn (ns ! s) (ns ! t)))]))"

definition attractionImpulses :: "GraphSimulation \<Rightarrow> Connection list \<Rightarrow> Node list \<Rightarrow> (nat \<times> real \<times> real) list" where
  "attractionImpulses sim conns ns = concat (map (connImpulses sim ns) conns)"

text \<open>
  Concrete values for the instances of the theorems.  \<open>codeUnits\<close> gives the code units
  of a string of ASCII characters.
\<close>

definition codeUnits :: "string \<Rightarrow> jsString" where
  "codeUnits s = map of_char s"

definition exampleNode :: "string \<Rightarrow> real \<Rightarrow> real \<Rightarrow> Node" where
  "exampleNode i px py =
     \<lparr>node_id = i, node_label = codeUnits i, node_content = [], node_type = Note, node_timestamp = 0,
      node_x = Some px, node_y = Some py, node_vx = Some 0, node_vy = Some 0\<rparr>"

text \<open>
  A case folding for the instances: what \<^verbatim>\<open>toLowerCase\<close> does on strings of ASCII
  characters.
\<close>

definition asciiLower :: "jsString \<Rightarrow> jsString" where
  "asciiLower s = map (\<lambda>n. if 65 \<le> n \<and> n \<le> 90 then n + 32 else n) s"

definition exampleConnection :: "string \<Rightarrow> string \<Rightarrow> real \<Rightarrow> Connection" where
  "exampleConnection s t w = \<lparr>source = s, target = t, strength = w, reason = [], isSurprising = False\<rparr>"

text \<open>
  Whether the connection resolves and has the node at index \<open>k\<close> as an endpoint, and the
  change of velocity that it then gives to that node in one attraction step.
\<close>

definition touches :: "Node list \<Rightarrow> Connection \<Rightarrow> nat \<Rightarrow> bool" where
  "touches nodes conn k =
     (case findIndex (\<lambda>n. node_id n = source conn) nodes of
        None \<Rightarrow> False
      | Some s \<Rightarrow>
         (case findIndex (\<lambda>n. node_id n = target conn) nodes of
            None \<Rightarrow> False
          | Some t \<Rightarrow> s = k \<or> t = k))"

definition pullOn :: "GraphSimulation \<Rightarrow> Node list \<Rightarrow> Connection \<Rightarrow> nat \<Rightarrow> real \<times> real" where
  "pullOn sim nodes conn k =
     (case findIndex (\<lambda>n. node_id n = source conn) nodes of
        None \<Rightarrow> (0, 0)
      | Some s \<Rightarrow>
         (case findIndex (\<lambda>n. node_id n = target conn) nodes of
            None \<Rightarrow> (0, 0)
          | Some t \<Rightarrow>
             ((if s = k then fst (springForce sim conn (nodes ! s) (nodes ! t)) else 0)
                - (if t = k then fst (springForce sim conn (nodes ! s) (nodes ! t)) else 0),
              (if s = k then snd (springForce sim conn (nodes ! s) (nodes ! t)) else 0)
                - (if t = k then snd (springForce sim conn (nodes ! s) (nodes ! t)) else 0))))"

text \<open>The distance of a node from the pointer at the world position \<open>(cx, cy)\<close>.\<close>

definition pointerDistance :: "real \<Rightarrow> real \<Rightarrow> Node \<Rightarrow> real" where
  "pointerDistance cx cy node = sqrt ((orZero (node_x node) - cx)\<^sup>2 + (orZero (node_y node) - cy)\<^sup>2)"

text \<open>The condition under which the renderer draws a connection.\<close>

definition connectionVisible :: "Node list \<Rightarrow> real \<Rightarrow> Connection \<Rightarrow> bool" where
  "connectionVisible nodes filterStrength conn =
     (filterStrength \<le> strength conn
      \<and> source conn \<in> node_id ` set nodes \<and> target conn \<in> node_id ` set nodes)"

section \<open>Properties\<close>

subsection \<open>The divisor of the forces is never zero\<close>

lemma sqrtOrOne_eq: "sqrtOrOne s = (if s \<le> 0 then 1 else sqrt s)"
  by (auto simp: sqrtOrOne_def js_sqrt_def)

lemma sqrtOrOne_pos: "0 < sqrtOrOne s"
  by (simp add: sqrtOrOne_eq)

lemma sqrtOrOne_sq: "sqrtOrOne (dx * dx + dy * dy) = (if dx = 0 \<and> dy = 0 then 1 else sqrt (dx\<^sup>2 + dy\<^sup>2))"
proof -
  have "dx * dx + dy * dy \<le> 0 \<longleftrightarrow> dx = 0 \<and> dy = 0"
    by (metis add_nonneg_eq_0_iff dual_order.antisym mult_eq_0_iff sum_squares_ge_zero zero_le_square)
  then show ?thesis by (simp add: sqrtOrOne_eq power2_eq_square)
qed

lemma repulsionForce_Some:
  "repulsionForce sim a b =
     (let dx = orZero (node_x b) - orZero (node_x a);
          dy = orZero (node_y b) - orZero (node_y a);
          dist = sqrtOrOne (dx * dx + dy * dy)
      in Some (dx / dist * (repulsion sim * alpha sim / (dist * dist)),
               dy / dist * (repulsion sim * alpha sim / (dist * dist))))"
  using sqrtOrOne_pos [of "(orZero (node_x b) - orZero (node_x a)) * (orZero (node_x b) - orZero (node_x a))
     + (orZero (node_y b) - orZero (node_y a)) * (orZero (node_y b) - orZero (node_y a))"]
  by (simp add: repulsionForce_def js_div_def Let_def)

subsection \<open>The force loops as lists of impulses\<close>

lemma place_accelerate [simp]: "place (accelerate fx fy nd) = place nd"
  by (simp add: place_def accelerate_def)

lemma place_push [simp]: "place (push d fx fy nd) = place nd"
  by (simp add: push_def)

lemma isDragged_place: "place a = place b \<Longrightarrow> isDragged a d = isDragged b d"
  by (simp add: place_def isDragged_def)

lemma isDragged_accelerate [simp]: "isDragged (accelerate fx fy nd) d = isDragged nd d"
  by (simp add: isDragged_def accelerate_def)

lemma accelerate_accelerate [simp]:
  "accelerate fx fy (accelerate gx gy nd) = accelerate (gx + fx) (gy + fy) nd"
  by (simp add: accelerate_def orZero_def)

lemma repulsionForce_place:
  "place a = place a' \<Longrightarrow> place b = place b' \<Longrightarrow> repulsionForce sim a b = repulsionForce sim a' b'"
  by (simp add: repulsionForce_def place_def)

lemma forceBetween_place:
  "place a = place a' \<Longrightarrow> place b = place b' \<Longrightarrow> forceBetween sim a b = forceBetween sim a' b'"
  by (simp add: forceBetween_def repulsionForce_place [of a a' b b'])

lemma length_applyImpulse [simp]: "length (applyImpulse d imp ns) = length ns"
  by (cases imp) simp

lemma length_fold_applyImpulse [simp]: "length (fold (applyImpulse d) imps ns) = length ns"
  by (induction imps arbitrary: ns) simp_all

lemma map_place_applyImpulse [simp]: "map place (applyImpulse d imp ns) = map place ns"
proof (cases imp)
  case (fields k fx fy)
  show ?thesis
  proof (cases "k < length ns")
    case True
    then show ?thesis
      by (intro nth_equalityI) (auto simp: fields nth_list_update)
  next
    case False
    then have "ns[k := push d fx fy (ns ! k)] = ns" by (simp add: list_update_beyond)
    then show ?thesis by (simp only: fields applyImpulse.simps)
  qed
qed

lemma map_place_fold [simp]: "map place (fold (applyImpulse d) imps ns) = map place ns"
  by (induction imps arbitrary: ns) simp_all

lemma place_nth:
  assumes "map place ns = map place ns0" and "k < length ns0"
  shows "place (ns ! k) = place (ns0 ! k)"
proof -
  from assms(1) have len: "length ns = length ns0" by (rule map_eq_imp_length_eq)
  from assms(1) have "map place ns ! k = map place ns0 ! k" by simp
  with len assms(2) show ?thesis by simp
qed

lemma impulse_untouched:
  "k \<notin> fst ` set imps \<Longrightarrow> impulseX k imps = 0 \<and> impulseY k imps = 0"
  by (induction imps) (auto simp: impulseX_def impulseY_def)

lemma impulse_snoc:
  "impulseX k (imps @ [(i, fx, fy)]) = impulseX k imps + (if i = k then fx else 0)"
  "impulseY k (imps @ [(i, fx, fy)]) = impulseY k imps + (if i = k then fy else 0)"
  by (simp_all add: impulseX_def impulseY_def)

lemma fold_applyImpulse_nth:
  assumes "k < length ns"
  shows "fold (applyImpulse d) imps ns ! k =
     (if isDragged (ns ! k) d \<or> k \<notin> fst ` set imps then ns ! k
      else accelerate (impulseX k imps) (impulseY k imps) (ns ! k))"
proof (induction imps rule: rev_induct)
  case Nil
  then show ?case by simp
next
  case (snoc imp imps)
  obtain i fx fy where imp: "imp = (i, fx, fy)" by (cases imp)
  let ?prev = "fold (applyImpulse d) imps ns"
  have step: "fold (applyImpulse d) (imps @ [imp]) ns ! k =
      (if i = k then push d fx fy (?prev ! k) else ?prev ! k)"
    using assms by (simp add: imp nth_list_update)
  show ?case
  proof (cases "isDragged (ns ! k) d")
    case True
    with snoc step show ?thesis by (simp add: push_def)
  next
    case False
    show ?thesis
    proof (cases "k \<in> fst ` set imps")
      case True
      with False snoc step show ?thesis
        by (simp add: imp push_def impulse_snoc)
    next
      case untouched: False
      with False snoc have prev: "?prev ! k = ns ! k" by simp
      from impulse_untouched [OF untouched] prev False step untouched show ?thesis
        by (auto simp: imp push_def impulse_snoc)
    qed
  qed
qed

lemma foldM_impulses:
  assumes "\<And>a ns. a \<in> set as \<Longrightarrow> map place ns = map place ns0
             \<Longrightarrow> step a ns = Some (fold (applyImpulse d) (imp a) ns)"
    and "map place ns = map place ns0"
  shows "foldM step as ns = Some (fold (applyImpulse d) (concat (map imp as)) ns)"
  using assms
proof (induction as arbitrary: ns)
  case Nil
  then show ?case by simp
next
  case (Cons a as)
  have first: "step a ns = Some (fold (applyImpulse d) (imp a) ns)"
    using Cons.prems by simp
  have "foldM step as (fold (applyImpulse d) (imp a) ns)
      = Some (fold (applyImpulse d) (concat (map imp as)) (fold (applyImpulse d) (imp a) ns))"
    using Cons.prems by (intro Cons.IH) simp_all
  with first show ?case by simp
qed

lemma list_update_other_id: "i \<noteq> j \<Longrightarrow> xs[i := a, j := xs ! j] = xs[i := a]"
  by (metis list_update_id nth_list_update_neq)

lemma repulsionPair_impulses:
  assumes "i < length ns" and "j < length ns" and "i \<noteq> j"
  shows "repulsionPair sim d i j ns =
     Some (fold (applyImpulse d)
        [(i, - fst (forceBetween sim (ns ! i) (ns ! j)), - snd (forceBetween sim (ns ! i) (ns ! j))),
         (j, fst (forceBetween sim (ns ! i) (ns ! j)), snd (forceBetween sim (ns ! i) (ns ! j)))] ns)"
proof -
  obtain fx fy where f: "repulsionForce sim (ns ! i) (ns ! j) = Some (fx, fy)"
    by (simp add: repulsionForce_Some Let_def)
  then have fb: "forceBetween sim (ns ! i) (ns ! j) = (fx, fy)"
    by (simp add: forceBetween_def)
  show ?thesis
    using assms
    by (simp add: repulsionPair_def f fb Let_def push_def accelerate_def nth_list_update list_update_other_id)
qed

subsection \<open>Repulsion\<close>

lemma repulsion_inner_loop:
  assumes frame: "map place ns = map place ns0" and i: "i < length ns0"
  shows "foldM (repulsionPair sim d i) [Suc i ..< length ns] ns =
     Some (fold (applyImpulse d) (concat (map (pairImpulses sim ns0 i) [Suc i ..< length ns0])) ns)"
proof -
  from frame have len: "length ns = length ns0" by (rule map_eq_imp_length_eq)
  have "foldM (repulsionPair sim d i) [Suc i ..< length ns0] ns =
     Some (fold (applyImpulse d) (concat (map (pairImpulses sim ns0 i) [Suc i ..< length ns0])) ns)"
  proof (rule foldM_impulses [OF _ frame])
    fix j ms
    assume j: "j \<in> set [Suc i ..< length ns0]" and fr: "map place ms = map place ns0"
    from fr have l: "length ms = length ns0" by (rule map_eq_imp_length_eq)
    from j have jl: "j < length ns0" and ij: "i \<noteq> j" by auto
    have "forceBetween sim (ms ! i) (ms ! j) = forceBetween sim (ns0 ! i) (ns0 ! j)"
      by (rule forceBetween_place) (rule place_nth [OF fr i], rule place_nth [OF fr jl])
    with repulsionPair_impulses [of i ms j sim d] i jl ij l
    show "repulsionPair sim d i j ms = Some (fold (applyImpulse d) (pairImpulses sim ns0 i j) ms)"
      by (simp add: pairImpulses_def)
  qed
  with len show ?thesis by simp
qed

lemma applyRepulsionForces_impulses:
  "applyRepulsionForces sim d ns = Some (fold (applyImpulse d) (repulsionImpulses sim ns) ns)"
  unfolding applyRepulsionForces_def repulsionImpulses_def
proof (rule foldM_impulses [where ?ns0.0 = ns])
  fix i ms
  assume "i \<in> set [0 ..< length ns]" and fr: "map place ms = map place ns"
  then have "i < length ns" by simp
  from repulsion_inner_loop [OF fr this]
  show "foldM (repulsionPair sim d i) [Suc i ..< length ms] ms =
     Some (fold (applyImpulse d) (concat (map (pairImpulses sim ns i) [Suc i ..< length ns])) ms)" .
qed simp

lemma impulseX_concat: "impulseX k (concat (map f xs)) = sum_list (map (\<lambda>x. impulseX k (f x)) xs)"
  by (induction xs) (simp_all add: impulseX_def)

lemma impulseY_concat: "impulseY k (concat (map f xs)) = sum_list (map (\<lambda>x. impulseY k (f x)) xs)"
  by (induction xs) (simp_all add: impulseY_def)

lemma sqrtOrOne_neg: "sqrtOrOne ((- dx) * (- dx) + (- dy) * (- dy)) = sqrtOrOne (dx * dx + dy * dy)"
  by simp

lemma forceBetween_antisym:
  "forceBetween sim b a = (- fst (forceBetween sim a b), - snd (forceBetween sim a b))"
proof -
  define dx where "dx = orZero (node_x b) - orZero (node_x a)"
  define dy where "dy = orZero (node_y b) - orZero (node_y a)"
  define D where "D = sqrtOrOne (dx * dx + dy * dy)"
  have ab: "forceBetween sim a b =
      (dx / D * (repulsion sim * alpha sim / (D * D)), dy / D * (repulsion sim * alpha sim / (D * D)))"
    by (simp add: forceBetween_def repulsionForce_Some Let_def dx_def dy_def D_def)
  have nx: "orZero (node_x a) - orZero (node_x b) = - dx" by (simp add: dx_def)
  have ny: "orZero (node_y a) - orZero (node_y b) = - dy" by (simp add: dy_def)
  have "forceBetween sim b a =
      (- dx / D * (repulsion sim * alpha sim / (D * D)), - dy / D * (repulsion sim * alpha sim / (D * D)))"
    unfolding forceBetween_def repulsionForce_Some Let_def nx ny sqrtOrOne_neg D_def by simp
  with ab show ?thesis by simp
qed

lemma pair_sum:
  fixes F :: "nat \<Rightarrow> nat \<Rightarrow> real"
  assumes k: "k < n" and anti: "\<And>i j. F j i = - F i j"
  shows "(\<Sum>i = 0..<n. \<Sum>j = Suc i..<n. (if i = k then - F i j else 0) + (if j = k then F i j else 0))
       = (\<Sum>j \<in> {..<n} - {k}. F j k)"
proof -
  have A: "(\<Sum>i = 0..<n. \<Sum>j = Suc i..<n. (if i = k then - F i j else 0)) = (\<Sum>j = Suc k..<n. F j k)"
  proof -
    have "(\<Sum>i = 0..<n. \<Sum>j = Suc i..<n. (if i = k then - F i j else 0))
        = (\<Sum>i = 0..<n. if i = k then (\<Sum>j = Suc k..<n. - F k j) else 0)"
      by (intro sum.cong) auto
    also have "\<dots> = (\<Sum>j = Suc k..<n. - F k j)" using k by simp
    also have "\<dots> = (\<Sum>j = Suc k..<n. F j k)" by (simp add: anti [of k])
    finally show ?thesis .
  qed
  have B: "(\<Sum>i = 0..<n. \<Sum>j = Suc i..<n. (if j = k then F i j else 0)) = (\<Sum>i = 0..<k. F i k)"
  proof -
    have "(\<Sum>i = 0..<n. \<Sum>j = Suc i..<n. (if j = k then F i j else 0))
        = (\<Sum>i = 0..<n. if i < k then F i k else 0)"
      using k by (intro sum.cong) (auto simp: sum.delta')
    also have "\<dots> = (\<Sum>i \<in> {0..<n} \<inter> {i. i < k}. F i k)"
      by (simp add: sum.inter_restrict)
    also have "{0..<n} \<inter> {i. i < k} = {0..<k}" using k by auto
    finally show ?thesis .
  qed
  have C: "{..<n} - {k} = {0..<k} \<union> {Suc k..<n}" using k by auto
  have "(\<Sum>j \<in> {..<n} - {k}. F j k) = (\<Sum>i = 0..<k. F i k) + (\<Sum>j = Suc k..<n. F j k)"
    unfolding C by (rule sum.union_disjoint) auto
  with A B show ?thesis by (simp add: sum.distrib)
qed

lemma impulse_pairImpulses:
  "impulseX k (pairImpulses sim ns i j) =
     (if i = k then - fst (forceBetween sim (ns ! i) (ns ! j)) else 0)
     + (if j = k then fst (forceBetween sim (ns ! i) (ns ! j)) else 0)"
  "impulseY k (pairImpulses sim ns i j) =
     (if i = k then - snd (forceBetween sim (ns ! i) (ns ! j)) else 0)
     + (if j = k then snd (forceBetween sim (ns ! i) (ns ! j)) else 0)"
  by (simp_all add: impulseX_def impulseY_def pairImpulses_def)

lemma repulsion_impulseX:
  assumes "k < length ns"
  shows "impulseX k (repulsionImpulses sim ns) =
     (\<Sum>j \<in> {..<length ns} - {k}. fst (forceBetween sim (ns ! j) (ns ! k)))"
proof -
  have "impulseX k (repulsionImpulses sim ns) =
      (\<Sum>i = 0..<length ns. \<Sum>j = Suc i..<length ns.
         (if i = k then - fst (forceBetween sim (ns ! i) (ns ! j)) else 0)
         + (if j = k then fst (forceBetween sim (ns ! i) (ns ! j)) else 0))"
    by (simp only: repulsionImpulses_def impulseX_concat impulse_pairImpulses
        interv_sum_list_conv_sum_set_nat set_upt)
  also have "\<dots> = (\<Sum>j \<in> {..<length ns} - {k}. fst (forceBetween sim (ns ! j) (ns ! k)))"
    by (rule pair_sum [OF assms]) (subst forceBetween_antisym, simp)
  finally show ?thesis .
qed

lemma repulsion_impulseY:
  assumes "k < length ns"
  shows "impulseY k (repulsionImpulses sim ns) =
     (\<Sum>j \<in> {..<length ns} - {k}. snd (forceBetween sim (ns ! j) (ns ! k)))"
proof -
  have "impulseY k (repulsionImpulses sim ns) =
      (\<Sum>i = 0..<length ns. \<Sum>j = Suc i..<length ns.
         (if i = k then - snd (forceBetween sim (ns ! i) (ns ! j)) else 0)
         + (if j = k then snd (forceBetween sim (ns ! i) (ns ! j)) else 0))"
    by (simp only: repulsionImpulses_def impulseY_concat impulse_pairImpulses
        interv_sum_list_conv_sum_set_nat set_upt)
  also have "\<dots> = (\<Sum>j \<in> {..<length ns} - {k}. snd (forceBetween sim (ns ! j) (ns ! k)))"
    by (rule pair_sum [OF assms]) (subst forceBetween_antisym, simp)
  finally show ?thesis .
qed

lemma repulsion_indices:
  "fst ` set (repulsionImpulses sim ns) = (\<Union>i \<in> {0..<length ns}. \<Union>j \<in> {Suc i..<length ns}. {i, j})"
  by (simp add: repulsionImpulses_def pairImpulses_def image_UN)

lemma repulsion_touched:
  assumes "k < length ns"
  shows "k \<in> fst ` set (repulsionImpulses sim ns) \<longleftrightarrow> length ns \<noteq> 1"
proof
  assume "k \<in> fst ` set (repulsionImpulses sim ns)"
  then obtain i j where "i < length ns" "Suc i \<le> j" "j < length ns"
    unfolding repulsion_indices by auto
  then show "length ns \<noteq> 1" by simp
next
  assume n: "length ns \<noteq> 1"
  show "k \<in> fst ` set (repulsionImpulses sim ns)"
  proof (cases "Suc k < length ns")
    case True
    with assms have "k \<in> {0..<length ns}" "Suc k \<in> {Suc k..<length ns}" by simp_all
    then show ?thesis unfolding repulsion_indices by blast
  next
    case False
    with assms n have "0 \<in> {0..<length ns}" "k \<in> {Suc 0..<length ns}" by auto
    then show ?thesis unfolding repulsion_indices by blast
  qed
qed

lemma applyRepulsionForces_nth:
  assumes "k < length ns"
  shows "\<exists>ns'. applyRepulsionForces sim d ns = Some ns' \<and> length ns' = length ns \<and>
     ns' ! k = (if isDragged (ns ! k) d \<or> length ns = 1 then ns ! k
                else accelerate (\<Sum>j \<in> {..<length ns} - {k}. fst (forceBetween sim (ns ! j) (ns ! k)))
                                (\<Sum>j \<in> {..<length ns} - {k}. snd (forceBetween sim (ns ! j) (ns ! k)))
                                (ns ! k))"
  using assms
  by (simp add: applyRepulsionForces_impulses fold_applyImpulse_nth repulsion_touched
      repulsion_impulseX repulsion_impulseY)

lemma forceBetween_distance:
  "forceBetween sim a b =
     (if nodeDistance a b = 0 then (0, 0)
      else ((orZero (node_x b) - orZero (node_x a)) / nodeDistance a b
              * (repulsion sim * alpha sim / (nodeDistance a b * nodeDistance a b)),
            (orZero (node_y b) - orZero (node_y a)) / nodeDistance a b
              * (repulsion sim * alpha sim / (nodeDistance a b * nodeDistance a b))))"
proof -
  define dx where "dx = orZero (node_x b) - orZero (node_x a)"
  define dy where "dy = orZero (node_y b) - orZero (node_y a)"
  have d: "nodeDistance a b = sqrt (dx\<^sup>2 + dy\<^sup>2)"
    by (simp add: nodeDistance_def dx_def dy_def)
  have z: "nodeDistance a b = 0 \<longleftrightarrow> dx = 0 \<and> dy = 0"
    by (simp add: d sum_power2_eq_zero_iff)
  have "forceBetween sim a b =
      (let dist = sqrtOrOne (dx * dx + dy * dy)
       in (dx / dist * (repulsion sim * alpha sim / (dist * dist)),
           dy / dist * (repulsion sim * alpha sim / (dist * dist))))"
    by (simp add: forceBetween_def repulsionForce_Some Let_def dx_def dy_def)
  then show ?thesis
    unfolding sqrtOrOne_sq z d [symmetric] dx_def [symmetric] dy_def [symmetric]
    by (simp add: Let_def)
qed

lemma magnitude_forceBetween:
  "magnitude (forceBetween sim a b) =
     (if nodeDistance a b = 0 then 0 else \<bar>repulsion sim * alpha sim\<bar> / (nodeDistance a b)\<^sup>2)"
proof (cases "nodeDistance a b = 0")
  case True
  then show ?thesis by (simp add: forceBetween_distance magnitude_def)
next
  case False
  define dx where "dx = orZero (node_x b) - orZero (node_x a)"
  define dy where "dy = orZero (node_y b) - orZero (node_y a)"
  define D where "D = nodeDistance a b"
  define K where "K = repulsion sim * alpha sim / (D * D)"
  have D: "D\<^sup>2 = dx\<^sup>2 + dy\<^sup>2" and Dpos: "0 < D"
    using False by (simp_all add: D_def nodeDistance_def dx_def dy_def less_le)
  have "(dx / D * K)\<^sup>2 + (dy / D * K)\<^sup>2 = (dx\<^sup>2 + dy\<^sup>2) / D\<^sup>2 * K\<^sup>2"
    by (simp add: power_mult_distrib power_divide add_divide_distrib distrib_right)
  also have "\<dots> = K\<^sup>2" using Dpos by (simp add: D [symmetric])
  finally have "sqrt ((dx / D * K)\<^sup>2 + (dy / D * K)\<^sup>2) = \<bar>K\<bar>" by simp
  moreover have "\<bar>K\<bar> = \<bar>repulsion sim * alpha sim\<bar> / D\<^sup>2"
    by (simp add: K_def power2_eq_square abs_mult)
  ultimately show ?thesis
    using False by (simp add: forceBetween_distance magnitude_def dx_def dy_def D_def K_def)
qed

subsection \<open>Attraction\<close>

lemma attractionForce_Some:
  "attractionForce sim conn a b =
     Some ((orZero (node_x b) - orZero (node_x a))
             * (attraction sim * (if strength conn = 0 then 0.1 else strength conn) * alpha sim),
           (orZero (node_y b) - orZero (node_y a))
             * (attraction sim * (if strength conn = 0 then 0.1 else strength conn) * alpha sim))"
  using sqrtOrOne_pos [of "(orZero (node_x b) - orZero (node_x a)) * (orZero (node_x b) - orZero (node_x a))
     + (orZero (node_y b) - orZero (node_y a)) * (orZero (node_y b) - orZero (node_y a))"]
  by (simp add: attractionForce_def js_div_def Let_def)

lemma springForce_eq:
  "springForce sim conn a b =
     ((orZero (node_x b) - orZero (node_x a))
        * (attraction sim * (if strength conn = 0 then 0.1 else strength conn) * alpha sim),
      (orZero (node_y b) - orZero (node_y a))
        * (attraction sim * (if strength conn = 0 then 0.1 else strength conn) * alpha sim))"
  by (simp add: springForce_def attractionForce_Some)

lemma magnitude_springForce:
  "magnitude (springForce sim conn a b) =
     nodeDistance a b * \<bar>attraction sim * (if strength conn = 0 then 0.1 else strength conn) * alpha sim\<bar>"
proof -
  define dx where "dx = orZero (node_x b) - orZero (node_x a)"
  define dy where "dy = orZero (node_y b) - orZero (node_y a)"
  define K where "K = attraction sim * (if strength conn = 0 then 0.1 else strength conn) * alpha sim"
  have "(dx * K)\<^sup>2 + (dy * K)\<^sup>2 = (dx\<^sup>2 + dy\<^sup>2) * K\<^sup>2"
    by (simp add: power_mult_distrib distrib_right)
  then have "sqrt ((dx * K)\<^sup>2 + (dy * K)\<^sup>2) = sqrt (dx\<^sup>2 + dy\<^sup>2) * \<bar>K\<bar>"
    by (simp add: real_sqrt_mult)
  then show ?thesis
    by (simp add: springForce_eq magnitude_def nodeDistance_def dx_def dy_def K_def)
qed

lemma attractionForce_place:
  "place a = place a' \<Longrightarrow> place b = place b' \<Longrightarrow> attractionForce sim c a b = attractionForce sim c a' b'"
  by (simp add: attractionForce_def place_def)

lemma springForce_place:
  "place a = place a' \<Longrightarrow> place b = place b' \<Longrightarrow> springForce sim c a b = springForce sim c a' b'"
  by (simp add: springForce_def attractionForce_place [of a a' b b'])

lemma findIndex_map: "findIndex P (map f xs) = findIndex (\<lambda>x. P (f x)) xs"
  by (induction xs) simp_all

lemma findIndex_place:
  assumes "map place ns = map place ns0"
  shows "findIndex (\<lambda>n. node_id n = s) ns = findIndex (\<lambda>n. node_id n = s) ns0"
proof -
  have "findIndex (\<lambda>n. node_id n = s) ms = findIndex (\<lambda>p. fst p = s) (map place ms)" for ms
    by (simp add: findIndex_map place_def)
  with assms show ?thesis by simp
qed

lemma findIndex_Some:
  "findIndex P xs = Some i \<Longrightarrow> i < length xs \<and> P (xs ! i) \<and> (\<forall>j<i. \<not> P (xs ! j))"
proof (induction xs arbitrary: i)
  case Nil
  then show ?case by simp
next
  case (Cons a xs)
  show ?case
  proof (cases "P a")
    case True
    with Cons.prems show ?thesis by simp
  next
    case False
    with Cons.prems obtain i' where i': "findIndex P xs = Some i'" "i = Suc i'" by auto
    from Cons.IH [OF i'(1)] False i'(2) show ?thesis
      by (auto simp: nth_Cons split: nat.splits)
  qed
qed

lemma findIndex_None: "findIndex P xs = None \<longleftrightarrow> (\<forall>x \<in> set xs. \<not> P x)"
  by (induction xs) auto

lemma attractConnection_impulses:
  assumes fr: "map place ns = map place ns0"
  shows "attractConnection sim d c ns = Some (fold (applyImpulse d) (connImpulses sim ns0 c) ns)"
proof (cases "findIndex (\<lambda>n. node_id n = source c) ns0")
  case None
  then show ?thesis by (simp add: attractConnection_def connImpulses_def findIndex_place [OF fr])
next
  case (Some s)
  note src = this
  show ?thesis
  proof (cases "findIndex (\<lambda>n. node_id n = target c) ns0")
    case None
    with src show ?thesis by (simp add: attractConnection_def connImpulses_def findIndex_place [OF fr])
  next
    case (Some t)
    from fr have len: "length ns = length ns0" by (rule map_eq_imp_length_eq)
    from findIndex_Some [OF src] findIndex_Some [OF Some] have s: "s < length ns0" and t: "t < length ns0"
      by simp_all
    obtain fx fy where f: "attractionForce sim c (ns ! s) (ns ! t) = Some (fx, fy)"
      by (simp add: attractionForce_Some)
    have "springForce sim c (ns0 ! s) (ns0 ! t) = springForce sim c (ns ! s) (ns ! t)"
      by (rule springForce_place [symmetric]) (rule place_nth [OF fr s], rule place_nth [OF fr t])
    with f have sf: "springForce sim c (ns0 ! s) (ns0 ! t) = (fx, fy)"
      by (simp add: springForce_def)
    show ?thesis
      using s t len
      by (simp add: attractConnection_def connImpulses_def findIndex_place [OF fr] src Some f sf
          Let_def push_def accelerate_def nth_list_update list_update_other_id)
  qed
qed

lemma applyAttractionForces_impulses:
  "applyAttractionForces sim conns d ns = Some (fold (applyImpulse d) (attractionImpulses sim conns ns) ns)"
  unfolding applyAttractionForces_def attractionImpulses_def
  by (rule foldM_impulses [where ?ns0.0 = ns]) (simp_all add: attractConnection_impulses)

lemma applyAttractionForces_nth:
  assumes "k < length ns"
  shows "\<exists>ns'. applyAttractionForces sim conns d ns = Some ns' \<and> length ns' = length ns \<and>
     ns' ! k = (if isDragged (ns ! k) d \<or> k \<notin> fst ` set (attractionImpulses sim conns ns) then ns ! k
                else accelerate (\<Sum>c \<leftarrow> conns. impulseX k (connImpulses sim ns c))
                                (\<Sum>c \<leftarrow> conns. impulseY k (connImpulses sim ns c))
                                (ns ! k))"
  using assms
  by (simp add: applyAttractionForces_impulses fold_applyImpulse_nth)
     (simp add: attractionImpulses_def impulseX_concat impulseY_concat)

subsection \<open>The whole tick\<close>

lemma centerForce_pos: "\<not> centerForce \<le> 0"
  by (simp add: centerForce_def)

lemma applyCenteringForce_length [simp]: "length (applyCenteringForce sim d ns) = length ns"
  by (simp add: applyCenteringForce_def)

lemma applyCenteringForce_dragged:
  "k < length ns \<Longrightarrow> isDragged (ns ! k) d \<Longrightarrow> applyCenteringForce sim d ns ! k = ns ! k"
  by (simp add: applyCenteringForce_def)

lemma updatePositions_length [simp]: "length (updatePositions sim d ns) = length ns"
  by (simp add: updatePositions_def)

lemma updatePositions_dragged:
  "k < length ns \<Longrightarrow> isDragged (ns ! k) d \<Longrightarrow> updatePositions sim d ns ! k = ns ! k"
  by (simp add: updatePositions_def)

lemma simulate_Some:
  "simulate sim ns conns d =
     Some (sim\<lparr>alpha := max minAlpha (alpha sim * cooling)\<rparr>,
           updatePositions sim d
             (fold (applyImpulse d)
                (attractionImpulses sim conns
                   (fold (applyImpulse d) (repulsionImpulses sim (applyCenteringForce sim d ns))
                      (applyCenteringForce sim d ns)))
                (fold (applyImpulse d) (repulsionImpulses sim (applyCenteringForce sim d ns))
                   (applyCenteringForce sim d ns))))"
  by (simp add: simulate_def Let_def applyRepulsionForces_impulses applyAttractionForces_impulses)

lemma simulate_dragged:
  assumes "k < length ns" and "isDragged (ns ! k) d"
  shows "\<exists>sim' ns'. simulate sim ns conns d = Some (sim', ns') \<and> length ns' = length ns \<and> ns' ! k = ns ! k"
  using assms
  by (simp add: simulate_Some updatePositions_dragged fold_applyImpulse_nth applyCenteringForce_dragged)

lemma simulateN_dragged:
  assumes "k < length ns" and "isDragged (ns ! k) d"
  shows "\<exists>sim' ns'. simulateN n sim ns conns d = Some (sim', ns') \<and> length ns' = length ns \<and> ns' ! k = ns ! k"
  using assms
proof (induction n arbitrary: sim ns)
  case 0
  then show ?case by simp
next
  case (Suc n)
  from simulate_dragged [OF Suc.prems] obtain sim1 ns1 where
    one: "simulate sim ns conns d = Some (sim1, ns1)" "length ns1 = length ns" "ns1 ! k = ns ! k"
    by blast
  with Suc.prems have "k < length ns1" "isDragged (ns1 ! k) d" by simp_all
  from Suc.IH [OF this, of sim1] one show ?case by auto
qed

subsection \<open>Zooming with the wheel\<close>

lemma handleWheel_range:
  "metaKey e \<or> ctrlKey e \<Longrightarrow> 0.5 \<le> zoom (fst (handleWheel e cs)) \<and> zoom (fst (handleWheel e cs)) \<le> 3"
  by (simp add: handleWheel_def Let_def)

lemma handleWheel_keeps_range:
  "0.5 \<le> zoom cs \<Longrightarrow> zoom cs \<le> 3 \<Longrightarrow>
   0.5 \<le> zoom (fst (handleWheel e cs)) \<and> zoom (fst (handleWheel e cs)) \<le> 3"
  by (auto simp: handleWheel_def Let_def max_def min_def)

lemma handleWheels_keeps_range:
  "0.5 \<le> zoom cs \<Longrightarrow> zoom cs \<le> 3 \<Longrightarrow>
   0.5 \<le> zoom (handleWheels es cs) \<and> zoom (handleWheels es cs) \<le> 3"
proof (induction es arbitrary: cs)
  case Nil
  then show ?case by simp
next
  case (Cons e es)
  from handleWheel_keeps_range [OF Cons.prems]
  have "0.5 \<le> zoom (fst (handleWheel e cs))" "zoom (fst (handleWheel e cs)) \<le> 3" by simp_all
  from Cons.IH [OF this] show ?case by simp
qed

text \<open>
  Claim C6.  A wheel event with the meta or ctrl key held multiplies the zoom by 0.9 when
  \<open>deltaY > 0\<close> and by 1.1 otherwise, and clamps the product to the interval from 0.5 to 3;
  a wheel event without such a key changes nothing and is not consumed; and from a zoom
  inside the interval no sequence of wheel events leads outside of it.
\<close>

theorem handleWheel_zoom:
  assumes "metaKey e1 \<or> ctrlKey e1"
    and "\<not> metaKey e2" and "\<not> ctrlKey e2"
    and "0.5 \<le> zoom cs0" and "zoom cs0 \<le> 3"
  shows "zoom (fst (handleWheel e1 cs)) = max 0.5 (min 3 (zoom cs * (if deltaY e1 > 0 then 0.9 else 1.1)))
       \<and> handleWheel e2 cs = (cs, False)
       \<and> 0.5 \<le> zoom (handleWheels es cs0) \<and> zoom (handleWheels es cs0) \<le> 3"
  using assms handleWheels_keeps_range [of cs0 es]
  by (simp add: handleWheel_def Let_def)

theorem handleWheel_zoom_witness:
  "zoom (fst (handleWheel \<lparr>metaKey = False, ctrlKey = True, deltaY = 100\<rparr> defaultCanvasState)) = 0.9
   \<and> zoom (fst (handleWheel \<lparr>metaKey = False, ctrlKey = True, deltaY = - 100\<rparr> defaultCanvasState)) = 1.1
   \<and> handleWheel \<lparr>metaKey = False, ctrlKey = False, deltaY = 100\<rparr> defaultCanvasState = (defaultCanvasState, False)
   \<and> zoom (handleWheels (replicate 20 \<lparr>metaKey = True, ctrlKey = False, deltaY = - 1\<rparr>) defaultCanvasState) \<le> 3"
proof -
  let ?up = "\<lparr>metaKey = False, ctrlKey = True, deltaY = - 100\<rparr>"
  let ?down = "\<lparr>metaKey = False, ctrlKey = True, deltaY = 100\<rparr>"
  let ?plain = "\<lparr>metaKey = False, ctrlKey = False, deltaY = 100\<rparr>"
  let ?es = "replicate 20 \<lparr>metaKey = True, ctrlKey = False, deltaY = - 1\<rparr>"
  have z: "zoom defaultCanvasState = 1" by (simp add: defaultCanvasState_def)
  have a: "zoom (fst (handleWheel ?down defaultCanvasState)) = 0.9"
    using handleWheel_zoom [of ?down ?plain defaultCanvasState defaultCanvasState ?es] z by simp
  have b: "zoom (fst (handleWheel ?up defaultCanvasState)) = 1.1"
    using handleWheel_zoom [of ?up ?plain defaultCanvasState defaultCanvasState ?es] z by simp
  have c: "handleWheel ?plain defaultCanvasState = (defaultCanvasState, False)
      \<and> zoom (handleWheels ?es defaultCanvasState) \<le> 3"
    using handleWheel_zoom [of ?down ?plain defaultCanvasState defaultCanvasState ?es] z by simp
  from a b c show ?thesis by simp
qed

subsection \<open>The range of the energy\<close>






subsection \<open>Screen and world coordinates\<close>

lemma toScreen_eq:
  "toScreen cs rect (wx, wy) =
     (rect_left rect + (width (canvasSize cs) / 2 + point_x (pan cs) + zoom cs * wx),
      rect_top rect + (height (canvasSize cs) / 2 + point_y (pan cs) + zoom cs * wy))"
  by (simp add: toScreen_def setupTransform_def identityMatrix_def applyMatrix_def Let_def)

lemma roundtrip_general:
  assumes "zoom cs \<noteq> 0"
  shows "canvasX cs rect (fst (toScreen cs rect (wx, wy))) = Some wx"
    and "canvasY cs rect (snd (toScreen cs rect (wx, wy))) = Some wy"
  using assms by (simp_all add: toScreen_eq canvasX_def canvasY_def js_div_def)

subsection \<open>The claims about the simulation\<close>

lemma repulsionForce_forceBetween: "repulsionForce sim a b = Some (forceBetween sim a b)"
  by (simp add: forceBetween_def repulsionForce_Some Let_def)

lemma attractionForce_springForce: "attractionForce sim conn a b = Some (springForce sim conn a b)"
  by (simp add: springForce_def attractionForce_Some)

lemma impulse_connImpulses:
  "impulseX k (connImpulses sim ns c) = fst (pullOn sim ns c k)"
  "impulseY k (connImpulses sim ns c) = snd (pullOn sim ns c k)"
  by (simp_all add: impulseX_def impulseY_def connImpulses_def pullOn_def split: option.splits)

lemma connImpulses_indices: "k \<in> fst ` set (connImpulses sim ns c) \<longleftrightarrow> touches ns c k"
proof (cases "findIndex (\<lambda>n. node_id n = source c) ns")
  case None
  then show ?thesis by (simp add: connImpulses_def touches_def)
next
  case (Some s)
  then show ?thesis
    by (cases "findIndex (\<lambda>n. node_id n = target c) ns") (auto simp: connImpulses_def touches_def)
qed

lemma attraction_touched:
  "k \<in> fst ` set (attractionImpulses sim conns ns) \<longleftrightarrow> (\<exists>c \<in> set conns. touches ns c k)"
  by (simp add: attractionImpulses_def image_UN connImpulses_indices)

text \<open>
  Claim C1, as amended.  The repulsion step always has a finite result.  It leaves a
  dragged node as it is, and adds to the velocity of every other node the sum, over all
  the other nodes of the array, of the force that pushes it away from them.  Between two
  nodes at a distance \<open>d\<close> other than zero this force has the magnitude
  \<open>repulsion * alpha / d\<^sup>2\<close>, for distances below \<open>1\<close> as well; between two nodes at the
  same place the divisor is \<open>1\<close> and the force is zero.
\<close>

theorem applyRepulsionForces_effect:
  assumes "k < length nodes"
  shows "(\<exists>nodes'. applyRepulsionForces sim d nodes = Some nodes' \<and> length nodes' = length nodes \<and>
            nodes' ! k =
              (if isDragged (nodes ! k) d \<or> length nodes = 1 then nodes ! k
               else accelerate (\<Sum>j \<in> {..<length nodes} - {k}. fst (forceBetween sim (nodes ! j) (nodes ! k)))
                               (\<Sum>j \<in> {..<length nodes} - {k}. snd (forceBetween sim (nodes ! j) (nodes ! k)))
                               (nodes ! k)))
       \<and> repulsionForce sim a b = Some (forceBetween sim a b)
       \<and> forceBetween sim a b =
            (if nodeDistance a b = 0 then (0, 0)
             else ((orZero (node_x b) - orZero (node_x a)) / nodeDistance a b
                     * (repulsion sim * alpha sim / (nodeDistance a b * nodeDistance a b)),
                   (orZero (node_y b) - orZero (node_y a)) / nodeDistance a b
                     * (repulsion sim * alpha sim / (nodeDistance a b * nodeDistance a b))))
       \<and> magnitude (forceBetween sim a b) =
            (if nodeDistance a b = 0 then 0 else \<bar>repulsion sim * alpha sim\<bar> / (nodeDistance a b)\<^sup>2)"
  using applyRepulsionForces_nth [OF assms, of sim d] repulsionForce_forceBetween [of sim a b]
    forceBetween_distance [of sim a b] magnitude_forceBetween [of sim a b]
  by (simp only: simp_thms)

theorem applyRepulsionForces_effect_witness:
  "(0::nat) < length [exampleNode ''a'' 0 0, exampleNode ''b'' 2 0]
   \<and> map_option (\<lambda>ns. ns ! 0)
        (applyRepulsionForces newGraphSimulation None [exampleNode ''a'' 0 0, exampleNode ''b'' 2 0])
       = Some ((exampleNode ''a'' 0 0)\<lparr>node_vx := Some (- 375)\<rparr>)
   \<and> magnitude (forceBetween newGraphSimulation (exampleNode ''a'' 0 0) (exampleNode ''b'' 2 0)) = 375"
proof -
  let ?a = "exampleNode ''a'' 0 0" and ?b = "exampleNode ''b'' 2 0"
  have d: "nodeDistance ?a ?b = 2" "nodeDistance ?b ?a = 2"
    by (simp_all add: nodeDistance_def exampleNode_def orZero_def)
  have s: "{..<length [?a, ?b]} - {0} = {1}" by auto
  have "forceBetween newGraphSimulation ?b ?a = (- 375, 0)"
    using applyRepulsionForces_effect [of 0 "[?a, ?b]" newGraphSimulation None ?b ?a] d
    by (simp add: exampleNode_def orZero_def newGraphSimulation_def baseAlpha_def)
  moreover have "accelerate (- 375) 0 ?a = ?a\<lparr>node_vx := Some (- 375)\<rparr>"
    by (simp add: accelerate_def exampleNode_def orZero_def)
  moreover have "\<not> isDragged ?a None" by (simp add: isDragged_def)
  ultimately show ?thesis
    using applyRepulsionForces_effect [of 0 "[?a, ?b]" newGraphSimulation None ?a ?b] d
    unfolding s
    by (auto simp: newGraphSimulation_def baseAlpha_def)
qed

theorem repulsion_floor_counterexample:
  "nodeDistance (exampleNode ''a'' 0 0) (exampleNode ''b'' (1/2) 0) = 1/2
   \<and> magnitude (forceBetween newGraphSimulation (exampleNode ''a'' 0 0) (exampleNode ''b'' (1/2) 0)) = 6000
   \<and> repulsion newGraphSimulation * alpha newGraphSimulation
        / (max 1 (nodeDistance (exampleNode ''a'' 0 0) (exampleNode ''b'' (1/2) 0)))\<^sup>2 = 1500"
proof -
  have d: "nodeDistance (exampleNode ''a'' 0 0) (exampleNode ''b'' (1/2) 0) = 1/2"
    by (simp add: nodeDistance_def exampleNode_def orZero_def real_sqrt_divide power_divide)
  show ?thesis
    by (simp add: magnitude_forceBetween d newGraphSimulation_def baseAlpha_def power_divide)
qed

text \<open>
  Claim C3, as amended.  The attraction step always has a finite result.  It leaves a
  dragged node as it is, and adds to the velocity of every other node that a resolving
  connection touches the sum of the pulls of all the connections.  The pull of a connection
  on its source is the vector from source to target times
  \<open>attraction * s * alpha\<close>, of magnitude \<open>d * attraction * s * alpha\<close> for the distance
  \<open>d\<close> of the endpoints, and the target gets the opposite; here \<open>s\<close> is the strength of
  the connection when that is not zero, and \<open>0.1\<close> when it is zero.
\<close>

theorem applyAttractionForces_effect:
  assumes "k < length nodes"
  shows "(\<exists>nodes'. applyAttractionForces sim conns d nodes = Some nodes' \<and> length nodes' = length nodes \<and>
            nodes' ! k =
              (if isDragged (nodes ! k) d \<or> \<not> list_ex (\<lambda>c. touches nodes c k) conns then nodes ! k
               else accelerate (\<Sum>c \<leftarrow> conns. fst (pullOn sim nodes c k))
                               (\<Sum>c \<leftarrow> conns. snd (pullOn sim nodes c k))
                               (nodes ! k)))
       \<and> attractionForce sim conn a b = Some (springForce sim conn a b)
       \<and> springForce sim conn a b =
            ((orZero (node_x b) - orZero (node_x a))
               * (attraction sim * (if strength conn = 0 then 0.1 else strength conn) * alpha sim),
             (orZero (node_y b) - orZero (node_y a))
               * (attraction sim * (if strength conn = 0 then 0.1 else strength conn) * alpha sim))
       \<and> magnitude (springForce sim conn a b) =
            nodeDistance a b * \<bar>attraction sim * (if strength conn = 0 then 0.1 else strength conn) * alpha sim\<bar>"
  using applyAttractionForces_nth [OF assms, of sim conns d] attractionForce_springForce [of sim conn a b]
    springForce_eq [of sim conn a b] magnitude_springForce [of sim conn a b]
  by (simp only: simp_thms attraction_touched impulse_connImpulses list_ex_iff)

theorem applyAttractionForces_effect_witness:
  "(0::nat) < length [exampleNode ''a'' 0 0, exampleNode ''b'' 100 0]
   \<and> map_option (\<lambda>ns. ns ! 0)
        (applyAttractionForces newGraphSimulation [exampleConnection ''a'' ''b'' (1/2)] None
           [exampleNode ''a'' 0 0, exampleNode ''b'' 100 0])
       = Some ((exampleNode ''a'' 0 0)\<lparr>node_vx := Some (3/20)\<rparr>)
   \<and> magnitude (springForce newGraphSimulation (exampleConnection ''a'' ''b'' (1/2))
        (exampleNode ''a'' 0 0) (exampleNode ''b'' 100 0)) = 3/20"
proof -
  let ?a = "exampleNode ''a'' 0 0" and ?b = "exampleNode ''b'' 100 0"
  let ?c = "exampleConnection ''a'' ''b'' (1/2)"
  have d: "nodeDistance ?a ?b = 100"
    by (simp add: nodeDistance_def exampleNode_def orZero_def)
  have t: "list_ex (\<lambda>c. touches [?a, ?b] c 0) [?c]"
    by (simp add: touches_def exampleNode_def exampleConnection_def)
  have p: "pullOn newGraphSimulation [?a, ?b] ?c 0 = (3/20, 0)"
    by (simp add: pullOn_def springForce_eq exampleNode_def exampleConnection_def orZero_def
        newGraphSimulation_def baseAlpha_def)
  have acc: "accelerate (3/20) 0 ?a = ?a\<lparr>node_vx := Some (3/20)\<rparr>"
    by (simp add: accelerate_def exampleNode_def orZero_def)
  have nd: "\<not> isDragged ([?a, ?b] ! 0) None" by (simp add: isDragged_def)
  have k: "\<bar>attraction newGraphSimulation * (if strength ?c = 0 then 0.1 else strength ?c)
      * alpha newGraphSimulation\<bar> = 3/2000"
    by (simp add: exampleConnection_def newGraphSimulation_def baseAlpha_def)
  from applyAttractionForces_effect [of 0 "[?a, ?b]" newGraphSimulation "[?c]" None ?c ?a ?b]
  obtain ns' where ns': "applyAttractionForces newGraphSimulation [?c] None [?a, ?b] = Some ns'"
      "ns' ! 0 = (if isDragged ([?a, ?b] ! 0) None \<or> \<not> list_ex (\<lambda>c. touches [?a, ?b] c 0) [?c] then [?a, ?b] ! 0
         else accelerate (\<Sum>c \<leftarrow> [?c]. fst (pullOn newGraphSimulation [?a, ?b] c 0))
                (\<Sum>c \<leftarrow> [?c]. snd (pullOn newGraphSimulation [?a, ?b] c 0)) ([?a, ?b] ! 0))"
    and mag: "magnitude (springForce newGraphSimulation ?c ?a ?b) =
      nodeDistance ?a ?b * \<bar>attraction newGraphSimulation * (if strength ?c = 0 then 0.1 else strength ?c)
      * alpha newGraphSimulation\<bar>"
    by auto
  from ns'(2) t nd have "ns' ! 0 = ?a\<lparr>node_vx := Some (3/20)\<rparr>"
    by (simp add: p acc)
  moreover from mag have "magnitude (springForce newGraphSimulation ?c ?a ?b) = 3/20"
    unfolding k d by simp
  ultimately show ?thesis using ns'(1) by simp
qed

theorem attraction_zero_strength_counterexample:
  "strength (exampleConnection ''a'' ''b'' 0) = 0
   \<and> attractionForce newGraphSimulation (exampleConnection ''a'' ''b'' 0)
        (exampleNode ''a'' 0 0) (exampleNode ''b'' 100 0) = Some (3/100, 0)
   \<and> applyAttractionForces newGraphSimulation [exampleConnection ''a'' ''b'' 0] None
        [exampleNode ''a'' 0 0, exampleNode ''b'' 100 0]
       = Some [(exampleNode ''a'' 0 0)\<lparr>node_vx := Some (3/100)\<rparr>,
               (exampleNode ''b'' 100 0)\<lparr>node_vx := Some (- (3/100))\<rparr>]"
  by (simp add: applyAttractionForces_def attractConnection_def attractionForce_Some isDragged_def
      exampleNode_def exampleConnection_def orZero_def newGraphSimulation_def baseAlpha_def)

text \<open>
  Claim C7.  Any number of ticks with the same dragged node id have a finite result and
  leave every node with that id exactly as it was: position, velocity and all other
  fields.  Each of the four steps of a tick, centering, repulsion, attraction and
  integration, leaves such a node as it was.
\<close>

theorem simulateN_pinned:
  assumes "k < length nodes" and "isDragged (nodes ! k) d"
  shows "(\<exists>sim' nodes'. simulateN n sim nodes conns d = Some (sim', nodes')
            \<and> length nodes' = length nodes \<and> nodes' ! k = nodes ! k)
       \<and> applyCenteringForce sim d nodes ! k = nodes ! k
       \<and> map_option (\<lambda>ns. ns ! k) (applyRepulsionForces sim d nodes) = Some (nodes ! k)
       \<and> map_option (\<lambda>ns. ns ! k) (applyAttractionForces sim conns d nodes) = Some (nodes ! k)
       \<and> updatePositions sim d nodes ! k = nodes ! k"
  using assms simulateN_dragged [OF assms, of n sim conns]
  by (simp add: applyCenteringForce_dragged updatePositions_dragged applyRepulsionForces_impulses
      applyAttractionForces_impulses fold_applyImpulse_nth)

theorem simulateN_pinned_witness:
  "(0::nat) < length [exampleNode ''a'' 3 4, exampleNode ''b'' 100 0]
   \<and> isDragged ([exampleNode ''a'' 3 4, exampleNode ''b'' 100 0] ! 0) (Some ''a'')
   \<and> map_option (\<lambda>r. snd r ! 0)
        (simulateN 5 newGraphSimulation [exampleNode ''a'' 3 4, exampleNode ''b'' 100 0]
           [exampleConnection ''a'' ''b'' 1] (Some ''a''))
       = Some (exampleNode ''a'' 3 4)"
proof -
  let ?ns = "[exampleNode ''a'' 3 4, exampleNode ''b'' 100 0]"
  have h: "(0::nat) < length ?ns" "isDragged (?ns ! 0) (Some ''a'')"
    by (simp_all add: isDragged_def exampleNode_def)
  from simulateN_pinned [OF h, of 5 newGraphSimulation "[exampleConnection ''a'' ''b'' 1]"] h
  show ?thesis by auto
qed

text \<open>
  Claim C9.  For two nodes at the same place and no connection, one tick has a finite
  result: the distance \<open>0\<close> is replaced by \<open>1\<close> before it divides, the force between the
  two nodes is zero, and the tick moves each node by the centering force alone.
\<close>

theorem simulate_coincident:
  assumes "orZero (node_x a) = orZero (node_x b)" and "orZero (node_y a) = orZero (node_y b)"
  shows "simulate sim [a, b] [] d =
           Some (sim\<lparr>alpha := max minAlpha (alpha sim * cooling)\<rparr>,
                 updatePositions sim d (applyCenteringForce sim d [a, b]))
       \<and> sqrtOrOne ((orZero (node_x b) - orZero (node_x a)) * (orZero (node_x b) - orZero (node_x a))
            + (orZero (node_y b) - orZero (node_y a)) * (orZero (node_y b) - orZero (node_y a))) = 1
       \<and> repulsionForce sim a b = Some (0, 0)"
proof -
  have rf: "repulsionForce sim a' b' = Some (0, 0)"
    if "orZero (node_x a') = orZero (node_x b')" "orZero (node_y a') = orZero (node_y b')" for a' b'
    using that by (simp add: repulsionForce_Some sqrtOrOne_eq Let_def)
  define f where "f = (\<lambda>node. if isDragged node d then node
      else node\<lparr>node_vx := Some (orZero (node_vx node) - orZero (node_x node) * centerForce * alpha sim),
                node_vy := Some (orZero (node_vy node) - orZero (node_y node) * centerForce * alpha sim)\<rparr>)"
  have c: "applyCenteringForce sim d [a, b] = [f a, f b]"
    by (simp add: applyCenteringForce_def centerForce_pos f_def)
  have pos: "orZero (node_x (f a)) = orZero (node_x (f b))" "orZero (node_y (f a)) = orZero (node_y (f b))"
    using assms by (simp_all add: f_def)
  have keep: "\<not> isDragged (f n) d \<Longrightarrow>
      (f n)\<lparr>node_vx := Some (orZero (node_vx (f n))), node_vy := Some (orZero (node_vy (f n)))\<rparr> = f n" for n
    by (simp add: f_def isDragged_def orZero_def split: if_splits)
  have "repulsionPair sim d 0 1 [f a, f b] = Some [f a, f b]"
    by (simp add: repulsionPair_def rf [OF pos] Let_def keep)
  then have "applyRepulsionForces sim d [f a, f b] = Some [f a, f b]"
    by (simp add: applyRepulsionForces_def upt_rec numeral_2_eq_2)
  then show ?thesis
    using assms by (simp add: simulate_def Let_def applyAttractionForces_def rf sqrtOrOne_eq c)
qed

theorem simulate_coincident_witness:
  "orZero (node_x (exampleNode ''a'' 0 0)) = orZero (node_x (exampleNode ''b'' 0 0))
   \<and> orZero (node_y (exampleNode ''a'' 0 0)) = orZero (node_y (exampleNode ''b'' 0 0))
   \<and> simulate newGraphSimulation [exampleNode ''a'' 0 0, exampleNode ''b'' 0 0] [] None
       = Some (newGraphSimulation\<lparr>alpha := 597/2000\<rparr>, [exampleNode ''a'' 0 0, exampleNode ''b'' 0 0])
   \<and> repulsionForce newGraphSimulation (exampleNode ''a'' 0 0) (exampleNode ''b'' 0 0) = Some (0, 0)"
proof -
  let ?a = "exampleNode ''a'' 0 0" and ?b = "exampleNode ''b'' 0 0"
  have h: "orZero (node_x ?a) = orZero (node_x ?b)" "orZero (node_y ?a) = orZero (node_y ?b)"
    by (simp_all add: exampleNode_def)
  have u: "updatePositions newGraphSimulation None (applyCenteringForce newGraphSimulation None [?a, ?b])
      = [?a, ?b]"
    by (simp add: updatePositions_def applyCenteringForce_def centerForce_def isDragged_def
        updateNode_def snap_def exampleNode_def orZero_def)
  have al: "max minAlpha (alpha newGraphSimulation * cooling) = 597/2000"
    by (simp add: minAlpha_def cooling_def newGraphSimulation_def baseAlpha_def)
  from simulate_coincident [OF h, of newGraphSimulation None] h show ?thesis
    by (simp only: u al simp_thms)
qed





subsection \<open>The camera transform\<close>

text \<open>
  Claim C5.  For a zoom between 0.5 and 3, any pan, any surface size and any position of
  the container, the point where the renderer paints a world point is
  \<open>center + pan + zoom * world\<close>, the world point of a pointer position is
  \<open>(screen - center - pan) / zoom\<close>, and the two maps are inverse to each other, exactly.
\<close>

theorem screen_world_roundtrip:
  assumes "0.5 \<le> zoom cs" and "zoom cs \<le> 3"
  shows "toScreen cs rect (wx, wy) =
           (rect_left rect + (width (canvasSize cs) / 2 + point_x (pan cs) + zoom cs * wx),
            rect_top rect + (height (canvasSize cs) / 2 + point_y (pan cs) + zoom cs * wy))
       \<and> canvasX cs rect sx = Some ((sx - rect_left rect - width (canvasSize cs) / 2 - point_x (pan cs)) / zoom cs)
       \<and> canvasY cs rect sy = Some ((sy - rect_top rect - height (canvasSize cs) / 2 - point_y (pan cs)) / zoom cs)
       \<and> canvasX cs rect (fst (toScreen cs rect (wx, wy))) = Some wx
       \<and> canvasY cs rect (snd (toScreen cs rect (wx, wy))) = Some wy
       \<and> (\<exists>wx' wy'. canvasX cs rect sx = Some wx' \<and> canvasY cs rect sy = Some wy'
             \<and> toScreen cs rect (wx', wy') = (sx, sy))"
proof -
  from assms have z: "zoom cs \<noteq> 0" by auto
  then have "toScreen cs rect ((sx - rect_left rect - width (canvasSize cs) / 2 - point_x (pan cs)) / zoom cs,
      (sy - rect_top rect - height (canvasSize cs) / 2 - point_y (pan cs)) / zoom cs) = (sx, sy)"
    by (simp add: toScreen_eq)
  with z show ?thesis
    by (simp add: toScreen_eq canvasX_def canvasY_def js_div_def)
qed

theorem screen_world_roundtrip_witness:
  "0.5 \<le> zoom (defaultCanvasState\<lparr>zoom := 2, pan := \<lparr>point_x = 10, point_y = - 20\<rparr>\<rparr>)
   \<and> zoom (defaultCanvasState\<lparr>zoom := 2, pan := \<lparr>point_x = 10, point_y = - 20\<rparr>\<rparr>) \<le> 3
   \<and> toScreen (defaultCanvasState\<lparr>zoom := 2, pan := \<lparr>point_x = 10, point_y = - 20\<rparr>\<rparr>)
        \<lparr>rect_left = 5, rect_top = 7\<rparr> (3, 4) = (421, 295)
   \<and> canvasX (defaultCanvasState\<lparr>zoom := 2, pan := \<lparr>point_x = 10, point_y = - 20\<rparr>\<rparr>)
        \<lparr>rect_left = 5, rect_top = 7\<rparr> 421 = Some 3
   \<and> canvasY (defaultCanvasState\<lparr>zoom := 2, pan := \<lparr>point_x = 10, point_y = - 20\<rparr>\<rparr>)
        \<lparr>rect_left = 5, rect_top = 7\<rparr> 295 = Some 4"
proof -
  let ?cs = "defaultCanvasState\<lparr>zoom := 2, pan := \<lparr>point_x = 10, point_y = - 20\<rparr>\<rparr>"
  let ?r = "\<lparr>rect_left = 5, rect_top = 7\<rparr>"
  have h: "0.5 \<le> zoom ?cs" "zoom ?cs \<le> 3" by simp_all
  have s: "toScreen ?cs ?r (3, 4) = (421, 295)"
    using screen_world_roundtrip [OF h, of ?r 3 4 0 0] by (simp add: defaultCanvasState_def)
  from screen_world_roundtrip [OF h, of ?r 3 4 0 0]
  have "canvasX ?cs ?r (fst (toScreen ?cs ?r (3, 4))) = Some 3"
    "canvasY ?cs ?r (snd (toScreen ?cs ?r (3, 4))) = Some 4"
    by blast+
  with s h show ?thesis by simp
qed

subsection \<open>Hit-testing\<close>

lemma withinPickRadius_distance: "withinPickRadius cx cy node \<longleftrightarrow> pointerDistance cx cy node < 12"
proof -
  have "\<not> (orZero (node_x node) - cx) * (orZero (node_x node) - cx)
      + (orZero (node_y node) - cy) * (orZero (node_y node) - cy) < 0"
    by (simp add: not_less)
  then show ?thesis
    by (simp add: withinPickRadius_def pointerDistance_def js_sqrt_def Let_def power2_eq_square)
qed

lemma find_first:
  assumes "i < length xs" and "P (xs ! i)" and "\<forall>j<i. \<not> P (xs ! j)"
  shows "find P xs = Some (xs ! i)"
  using assms
proof (induction xs arbitrary: i)
  case Nil
  then show ?case by simp
next
  case (Cons a xs)
  show ?case
  proof (cases i)
    case 0
    with Cons.prems show ?thesis by simp
  next
    case (Suc i')
    with Cons.prems have "\<not> P a" by auto
    moreover from Cons.prems Suc have "find P xs = Some (xs ! i')"
      by (intro Cons.IH) auto
    ultimately show ?thesis using Suc by simp
  qed
qed

lemma getNodeAtPosition_find:
  assumes "canvasX cs rect sx = Some cx" and "canvasY cs rect sy = Some cy"
  shows "getNodeAtPosition cs (Some rect) sx sy nodes = find (\<lambda>n. pointerDistance cx cy n < 12) nodes"
proof -
  have "withinPickRadius cx cy = (\<lambda>n. pointerDistance cx cy n < 12)"
    by (rule ext) (rule withinPickRadius_distance)
  with assms show ?thesis by (simp add: getNodeAtPosition_def)
qed

text \<open>
  Claim C2, as amended.  With the pointer at the world position \<open>(cx, cy)\<close>, hit-testing
  returns the first node in array order whose distance from the pointer is less than 12:
  a node within that distance is returned when every node before it in the array is at
  distance 12 or more, and nothing is returned when every node is at distance 12 or more,
  or when the container is not mounted.  A pointer at the exact position of a node is at
  distance 0 from it.
\<close>

theorem getNodeAtPosition_first_hit:
  assumes "canvasX cs rect sx = Some cx" and "canvasY cs rect sy = Some cy"
    and "i < length nodes" and "pointerDistance cx cy (nodes ! i) < 12"
    and "\<forall>j<i. 12 \<le> pointerDistance cx cy (nodes ! j)"
    and "\<forall>n \<in> set others. 12 \<le> pointerDistance cx cy n"
  shows "getNodeAtPosition cs (Some rect) sx sy nodes = Some (nodes ! i)
       \<and> getNodeAtPosition cs (Some rect) sx sy others = None
       \<and> getNodeAtPosition cs None sx sy nodes = None
       \<and> getNodeAtPosition cs (Some rect) sx sy anyNodes = find (\<lambda>n. pointerDistance cx cy n < 12) anyNodes
       \<and> pointerDistance (orZero (node_x node)) (orZero (node_y node)) node = 0"
proof -
  have "find (\<lambda>n. pointerDistance cx cy n < 12) nodes = Some (nodes ! i)"
    using assms(3-5) by (intro find_first) (auto simp: not_less)
  moreover have "find (\<lambda>n. pointerDistance cx cy n < 12) others = None"
    using assms(6) by (auto simp: find_None_iff)
  moreover have "getNodeAtPosition cs None sx sy nodes = None"
    by (simp add: getNodeAtPosition_def)
  moreover have "pointerDistance (orZero (node_x node)) (orZero (node_y node)) node = 0"
    by (simp add: pointerDistance_def)
  ultimately show ?thesis
    by (simp add: getNodeAtPosition_find [OF assms(1,2)])
qed

lemma pointerDistance_axis: "node_y node = Some cy \<Longrightarrow> pointerDistance cx cy node = \<bar>orZero (node_x node) - cx\<bar>"
  by (simp add: pointerDistance_def orZero_def)

theorem getNodeAtPosition_first_hit_witness:
  "canvasX defaultCanvasState \<lparr>rect_left = 0, rect_top = 0\<rparr> 405 = Some 5
   \<and> canvasY defaultCanvasState \<lparr>rect_left = 0, rect_top = 0\<rparr> 300 = Some 0
   \<and> pointerDistance 5 0 (exampleNode ''far'' 105 0) = 100
   \<and> pointerDistance 5 0 (exampleNode ''edge'' 17 0) = 12
   \<and> pointerDistance 5 0 (exampleNode ''b'' 5 0) = 0
   \<and> getNodeAtPosition defaultCanvasState (Some \<lparr>rect_left = 0, rect_top = 0\<rparr>) 405 300
        [exampleNode ''far'' 105 0, exampleNode ''edge'' 17 0, exampleNode ''b'' 5 0, exampleNode ''a'' 0 0]
       = Some (exampleNode ''b'' 5 0)
   \<and> getNodeAtPosition defaultCanvasState (Some \<lparr>rect_left = 0, rect_top = 0\<rparr>) 405 300
        [exampleNode ''far'' 105 0, exampleNode ''edge'' 17 0] = None"
proof -
  let ?r = "\<lparr>rect_left = 0, rect_top = 0\<rparr>"
  let ?far = "exampleNode ''far'' 105 0" and ?edge = "exampleNode ''edge'' 17 0"
  let ?b = "exampleNode ''b'' 5 0" and ?a = "exampleNode ''a'' 0 0"
  let ?ns = "[?far, ?edge, ?b, ?a]"
  have x: "canvasX defaultCanvasState ?r 405 = Some 5"
    and y: "canvasY defaultCanvasState ?r 300 = Some 0"
    by (simp_all add: canvasX_def canvasY_def js_div_def defaultCanvasState_def)
  have d: "pointerDistance 5 0 ?far = 100" "pointerDistance 5 0 ?edge = 12" "pointerDistance 5 0 ?b = 0"
    by (simp_all add: pointerDistance_axis exampleNode_def orZero_def)
  have i: "(2::nat) < length ?ns" by simp
  have hit: "pointerDistance 5 0 (?ns ! 2) < 12" using d by simp
  have before: "\<forall>j<2. 12 \<le> pointerDistance 5 0 (?ns ! j)"
    using d by (simp add: less_Suc_eq numeral_2_eq_2)
  have others: "\<forall>n \<in> set [?far, ?edge]. 12 \<le> pointerDistance 5 0 n"
    using d by simp
  from getNodeAtPosition_first_hit [OF x y i hit before others, of "[]" ?b] x y d
  show ?thesis by simp
qed

theorem hit_test_nearest_counterexample:
  "canvasX defaultCanvasState \<lparr>rect_left = 0, rect_top = 0\<rparr> 405 = Some 5
   \<and> canvasY defaultCanvasState \<lparr>rect_left = 0, rect_top = 0\<rparr> 300 = Some 0
   \<and> node_x (exampleNode ''b'' 5 0) = Some 5 \<and> node_y (exampleNode ''b'' 5 0) = Some 0
   \<and> pointerDistance 5 0 (exampleNode ''b'' 5 0) = 0
   \<and> pointerDistance 5 0 (exampleNode ''a'' 0 0) = 5
   \<and> getNodeAtPosition defaultCanvasState (Some \<lparr>rect_left = 0, rect_top = 0\<rparr>) 405 300
        [exampleNode ''a'' 0 0, exampleNode ''b'' 5 0] = Some (exampleNode ''a'' 0 0)
   \<and> exampleNode ''a'' 0 0 \<noteq> exampleNode ''b'' 5 0"
proof -
  let ?r = "\<lparr>rect_left = 0, rect_top = 0\<rparr>"
  have x: "canvasX defaultCanvasState ?r 405 = Some 5"
    and y: "canvasY defaultCanvasState ?r 300 = Some 0"
    by (simp_all add: canvasX_def canvasY_def js_div_def defaultCanvasState_def)
  have d: "pointerDistance 5 0 (exampleNode ''b'' 5 0) = 0" "pointerDistance 5 0 (exampleNode ''a'' 0 0) = 5"
    by (simp_all add: pointerDistance_axis exampleNode_def orZero_def)
  show ?thesis
    by (simp add: getNodeAtPosition_find [OF x y] d x y) (simp add: exampleNode_def)
qed

subsection \<open>Rendering\<close>

lemma startsWith_iff: "startsWith s t \<longleftrightarrow> (\<exists>post. s = t @ post)"
  by (induction s t rule: startsWith.induct) auto

lemma includesStr_iff: "includesStr s t \<longleftrightarrow> (\<exists>pre post. s = pre @ t @ post)"
proof (induction s)
  case Nil
  then show ?case by simp
next
  case (Cons a s)
  show ?case
  proof
    assume "includesStr (a # s) t"
    then consider "startsWith (a # s) t" | "includesStr s t" by auto
    then show "\<exists>pre post. a # s = pre @ t @ post"
    proof cases
      case 1
      then obtain post where "a # s = [] @ t @ post" by (auto simp: startsWith_iff)
      then show ?thesis by blast
    next
      case 2
      with Cons.IH obtain pre post where "s = pre @ t @ post" by blast
      then have "a # s = (a # pre) @ t @ post" by simp
      then show ?thesis by blast
    qed
  next
    assume "\<exists>pre post. a # s = pre @ t @ post"
    then obtain pre post where e: "a # s = pre @ t @ post" by blast
    show "includesStr (a # s) t"
    proof (cases pre)
      case Nil
      with e have "startsWith (a # s) t" by (auto simp: startsWith_iff)
      then show ?thesis by simp
    next
      case (Cons p pre')
      with e have "s = pre' @ t @ post" by simp
      with Cons.IH have "includesStr s t" by blast
      then show ?thesis by simp
    qed
  qed
qed

lemma includesStr_Nil: "includesStr s []"
  by (cases s) simp_all

text \<open>
  Claim C4, as amended.  For every rendered node the fill colour is chosen by the
  precedence search match, then selected, then default: there are three colour
  categories, and whether the node is hovered has no influence on the fill colour.  A
  hovered node gets the radius 12 instead of 10, the outline and the label, and is
  otherwise painted as if it were not hovered.  A node is a search match exactly when the
  search string is not empty and its lower case is a substring of the lower case of the
  label, for the case folding of the host, whatever letters it folds; so an empty search
  string matches no label.
\<close>

theorem nodeFillStyle_precedence:
  "nodeFillStyle toLowerCase isDark hovered selected q node =
     (if isSearchMatch toLowerCase q node then (if isDark then ''#3b82f6'' else ''#2563eb'')
      else if selected = Some (node_id node) then (if isDark then ''#8b5cf6'' else ''#7c3aed'')
      else (if isDark then ''#6366f1'' else ''#4f46e5''))
   \<and> nodeFillStyle toLowerCase isDark hovered selected q node
       = nodeFillStyle toLowerCase isDark None selected q node
   \<and> isSearchMatch toLowerCase q node =
       (q \<noteq> [] \<and> (\<exists>pre post. toLowerCase (node_label node) = pre @ toLowerCase q @ post))
   \<and> renderNode toLowerCase isDark hovered selected q z node =
       [BeginPath,
        Arc (orZero (node_x node)) (orZero (node_y node)) (if hovered = Some (node_id node) then 12 else 10) 0 (pi * 2),
        SetFillStyle (nodeFillStyle toLowerCase isDark None selected q node),
        Fill]
       @ (if hovered = Some (node_id node) \<or> selected = Some (node_id node)
          then [SetStrokeStyle (if isDark then ''#fff'' else ''#000''), SetLineWidth 2, Stroke]
          else [])
       @ (if hovered = Some (node_id node) \<or> selected = Some (node_id node)
             \<or> isSearchMatch toLowerCase q node \<or> 1.5 < z
          then [SetFillStyle (if isDark then ''#fff'' else ''#000''),
                SetFont ''12px system-ui'',
                SetTextAlign ''center'',
                FillText (node_label node) (orZero (node_x node)) (orZero (node_y node) - 15)]
          else [])
   \<and> renderNodes toLowerCase isDark nodes hovered selected q z =
       concat (map (renderNode toLowerCase isDark hovered selected q z) nodes)
   \<and> distinct [''#3b82f6'', ''#8b5cf6'', ''#6366f1''] \<and> distinct [''#2563eb'', ''#7c3aed'', ''#4f46e5'']"
proof -
  have branches: "nodeFillStyle toLowerCase isDark h selected q node =
      (if isSearchMatch toLowerCase q node then (if isDark then ''#3b82f6'' else ''#2563eb'')
       else if selected = Some (node_id node) then (if isDark then ''#8b5cf6'' else ''#7c3aed'')
       else (if isDark then ''#6366f1'' else ''#4f46e5''))" for h
    by (simp add: nodeFillStyle_def Let_def)
  have hover: "nodeFillStyle toLowerCase isDark hovered selected q node
      = nodeFillStyle toLowerCase isDark None selected q node"
    by (simp only: branches)
  have match: "isSearchMatch toLowerCase q node =
      (q \<noteq> [] \<and> (\<exists>pre post. toLowerCase (node_label node) = pre @ toLowerCase q @ post))"
    by (simp only: isSearchMatch_def includesStr_iff)
  have calls: "renderNode toLowerCase isDark hovered selected q z node =
      [BeginPath,
       Arc (orZero (node_x node)) (orZero (node_y node)) (if hovered = Some (node_id node) then 12 else 10) 0 (pi * 2),
       SetFillStyle (nodeFillStyle toLowerCase isDark None selected q node),
       Fill]
      @ (if hovered = Some (node_id node) \<or> selected = Some (node_id node)
         then [SetStrokeStyle (if isDark then ''#fff'' else ''#000''), SetLineWidth 2, Stroke]
         else [])
      @ (if hovered = Some (node_id node) \<or> selected = Some (node_id node)
            \<or> isSearchMatch toLowerCase q node \<or> 1.5 < z
         then [SetFillStyle (if isDark then ''#fff'' else ''#000''),
               SetFont ''12px system-ui'',
               SetTextAlign ''center'',
               FillText (node_label node) (orZero (node_x node)) (orZero (node_y node) - 15)]
         else [])"
    unfolding renderNode_def Let_def hover by (rule refl)
  have all: "renderNodes toLowerCase isDark nodes hovered selected q z =
      concat (map (renderNode toLowerCase isDark hovered selected q z) nodes)"
    by (simp only: renderNodes_def)
  have colours: "distinct [''#3b82f6'', ''#8b5cf6'', ''#6366f1'']" "distinct [''#2563eb'', ''#7c3aed'', ''#4f46e5'']"
    by simp_all
  from branches [of hovered] hover match calls all colours show ?thesis
    by (simp only: simp_thms)
qed

theorem nodeFillStyle_precedence_witness:
  "isSearchMatch asciiLower (codeUnits ''THEO'') ((exampleNode ''n1'' 0 0)\<lparr>node_label := codeUnits ''Graph Theory''\<rparr>)
   \<and> nodeFillStyle asciiLower False (Some ''n1'') (Some ''n1'') (codeUnits ''THEO'')
        ((exampleNode ''n1'' 0 0)\<lparr>node_label := codeUnits ''Graph Theory''\<rparr>) = ''#2563eb''
   \<and> nodeFillStyle asciiLower False (Some ''n1'') (Some ''n1'') (codeUnits ''xyz'')
        ((exampleNode ''n1'' 0 0)\<lparr>node_label := codeUnits ''Graph Theory''\<rparr>) = ''#7c3aed''
   \<and> renderNode asciiLower False (Some ''n1'') None (codeUnits ''xyz'') 1
        ((exampleNode ''n1'' 0 0)\<lparr>node_label := codeUnits ''Graph Theory''\<rparr>)
       = [BeginPath, Arc 0 0 12 0 (pi * 2), SetFillStyle ''#4f46e5'', Fill,
          SetStrokeStyle ''#000'', SetLineWidth 2, Stroke,
          SetFillStyle ''#000'', SetFont ''12px system-ui'', SetTextAlign ''center'',
          FillText (codeUnits ''Graph Theory'') 0 (- 15)]
   \<and> renderNode asciiLower False None None (codeUnits ''xyz'') 1
        ((exampleNode ''n1'' 0 0)\<lparr>node_label := codeUnits ''Graph Theory''\<rparr>)
       = [BeginPath, Arc 0 0 10 0 (pi * 2), SetFillStyle ''#4f46e5'', Fill]
   \<and> isSearchMatch (map (\<lambda>n. if n = 201 then 233 else n)) [233] ((exampleNode ''n2'' 0 0)\<lparr>node_label := [201]\<rparr>)
   \<and> nodeFillStyle (map (\<lambda>n. if n = 201 then 233 else n)) False None None [233]
        ((exampleNode ''n2'' 0 0)\<lparr>node_label := [201]\<rparr>) = ''#2563eb''"
proof -
  let ?n = "(exampleNode ''n1'' 0 0)\<lparr>node_label := codeUnits ''Graph Theory''\<rparr>"
  let ?m = "(exampleNode ''n2'' 0 0)\<lparr>node_label := [201]\<rparr>"
  let ?f = "map (\<lambda>n::nat. if n = 201 then 233 else n)"
  have m: "isSearchMatch asciiLower (codeUnits ''THEO'') ?n"
    by code_simp
  have nm: "\<not> isSearchMatch asciiLower (codeUnits ''xyz'') ?n"
    by code_simp
  have i: "node_id ?n = ''n1''" "node_label ?n = codeUnits ''Graph Theory''"
    "orZero (node_x ?n) = 0" "orZero (node_y ?n) = 0"
    by (simp_all add: exampleNode_def orZero_def)
  have e: "isSearchMatch ?f [233] ?m"
    using nodeFillStyle_precedence [of ?f False None None "[233]" ?m 1 "[]"]
    by (simp add: exampleNode_def) (rule exI [of _ "[]"], simp)
  have a: "nodeFillStyle asciiLower False (Some ''n1'') (Some ''n1'') (codeUnits ''THEO'') ?n = ''#2563eb''"
    using nodeFillStyle_precedence [of asciiLower False "Some ''n1''" "Some ''n1''" "codeUnits ''THEO''" ?n 1 "[]"]
    by (simp only: m i simp_thms if_True if_False)
  have b: "nodeFillStyle asciiLower False (Some ''n1'') (Some ''n1'') (codeUnits ''xyz'') ?n = ''#7c3aed''"
    using nodeFillStyle_precedence [of asciiLower False "Some ''n1''" "Some ''n1''" "codeUnits ''xyz''" ?n 1 "[]"]
    by (simp only: nm i simp_thms if_True if_False)
  have d: "nodeFillStyle asciiLower False None None (codeUnits ''xyz'') ?n = ''#4f46e5''"
    using nodeFillStyle_precedence [of asciiLower False None None "codeUnits ''xyz''" ?n 1 "[]"]
    by (simp only: nm i simp_thms if_True if_False option.simps)
  have c: "renderNode asciiLower False (Some ''n1'') None (codeUnits ''xyz'') 1 ?n
      = [BeginPath, Arc 0 0 12 0 (pi * 2), SetFillStyle ''#4f46e5'', Fill,
         SetStrokeStyle ''#000'', SetLineWidth 2, Stroke,
         SetFillStyle ''#000'', SetFont ''12px system-ui'', SetTextAlign ''center'',
         FillText (codeUnits ''Graph Theory'') 0 (- 15)]"
    using nodeFillStyle_precedence [of asciiLower False "Some ''n1''" None "codeUnits ''xyz''" ?n 1 "[]"]
    by (simp only: d i nm) simp
  have c': "renderNode asciiLower False None None (codeUnits ''xyz'') 1 ?n
      = [BeginPath, Arc 0 0 10 0 (pi * 2), SetFillStyle ''#4f46e5'', Fill]"
    using nodeFillStyle_precedence [of asciiLower False None None "codeUnits ''xyz''" ?n 1 "[]"]
    by (simp only: d i nm) simp
  have g: "nodeFillStyle ?f False None None [233] ?m = ''#2563eb''"
    using nodeFillStyle_precedence [of ?f False None None "[233]" ?m 1 "[]"]
    by (simp only: e simp_thms if_True if_False)
  from m a b c c' e g show ?thesis by (simp only: simp_thms)
qed

theorem hovered_fill_counterexample:
  "nodeFillStyle asciiLower False (Some ''h'') None [] (exampleNode ''h'' 0 0) = ''#4f46e5''
   \<and> nodeFillStyle asciiLower False None None [] (exampleNode ''h'' 0 0) = ''#4f46e5''
   \<and> nodeFillStyle asciiLower True (Some ''h'') None [] (exampleNode ''h'' 0 0)
       = nodeFillStyle asciiLower True None None [] (exampleNode ''h'' 0 0)
   \<and> includesStr (asciiLower (node_label (exampleNode ''h'' 0 0))) (asciiLower [])
   \<and> \<not> isSearchMatch asciiLower [] (exampleNode ''h'' 0 0)
   \<and> nodeFillStyle asciiLower False None (Some ''h'') [] (exampleNode ''h'' 0 0) = ''#7c3aed''"
  by (simp add: nodeFillStyle_def isSearchMatch_def includesStr_Nil asciiLower_def exampleNode_def)

lemma find_Some_iff_image: "(\<exists>n. find (\<lambda>n. f n = v) xs = Some n) \<longleftrightarrow> v \<in> f ` set xs"
  by (induction xs) auto

lemma renderConnection_empty: "renderConnection isDark nodes f conn = [] \<longleftrightarrow> \<not> connectionVisible nodes f conn"
proof (cases "find (\<lambda>n. node_id n = source conn) nodes")
  case None
  then have "source conn \<notin> node_id ` set nodes"
    using find_Some_iff_image [of node_id "source conn" nodes] by simp
  with None show ?thesis by (simp add: renderConnection_def connectionVisible_def)
next
  case (Some src)
  then have s: "source conn \<in> node_id ` set nodes"
    using find_Some_iff_image [of node_id "source conn" nodes] by auto
  show ?thesis
  proof (cases "find (\<lambda>n. node_id n = target conn) nodes")
    case None
    then have "target conn \<notin> node_id ` set nodes"
      using find_Some_iff_image [of node_id "target conn" nodes] by simp
    with None Some show ?thesis by (simp add: renderConnection_def connectionVisible_def)
  next
    case tgt: (Some tgt)
    then have "target conn \<in> node_id ` set nodes"
      using find_Some_iff_image [of node_id "target conn" nodes] by auto
    with s Some tgt show ?thesis
      by (simp add: renderConnection_def connectionVisible_def not_less)
  qed
qed

lemma renderConnection_strokes:
  "length (filter (\<lambda>c. c = Stroke) (renderConnection isDark nodes f conn)) =
     (if connectionVisible nodes f conn then 1 else 0)"
proof (cases "connectionVisible nodes f conn")
  case False
  then have "renderConnection isDark nodes f conn = []" by (simp add: renderConnection_empty)
  with False show ?thesis by simp
next
  case True
  then obtain src tgt where "find (\<lambda>n. node_id n = source conn) nodes = Some src"
    "find (\<lambda>n. node_id n = target conn) nodes = Some tgt"
    using find_Some_iff_image [of node_id "source conn" nodes]
      find_Some_iff_image [of node_id "target conn" nodes]
    by (auto simp: connectionVisible_def)
  with True show ?thesis
    by (simp add: renderConnection_def connectionVisible_def)
qed

lemma renderConnections_visible:
  "renderConnections isDark conns nodes f =
     concat (map (renderConnection isDark nodes f) (filter (connectionVisible nodes f) conns))"
  unfolding renderConnections_def
  by (induction conns) (simp_all add: renderConnection_empty)

lemma renderConnections_strokes:
  "length (filter (\<lambda>c. c = Stroke) (renderConnections isDark conns nodes f)) =
     length (filter (connectionVisible nodes f) conns)"
  unfolding renderConnections_def
  by (induction conns) (simp_all add: renderConnection_strokes)

text \<open>
  Claim C8.  The renderer draws exactly the connections whose strength is at least the
  filter threshold and whose source and target ids both occur in the node array: for such
  a connection it strokes one line from the source to the target, with the strength as
  opacity, and for any other connection it makes no call at all.
\<close>

theorem renderConnections_filter:
  "renderConnections isDark conns nodes f =
     concat (map (renderConnection isDark nodes f) (filter (connectionVisible nodes f) conns))
   \<and> length (filter (\<lambda>c. c = Stroke) (renderConnections isDark conns nodes f)) =
       length (filter (connectionVisible nodes f) conns)
   \<and> (renderConnection isDark nodes f conn = []) = (\<not> connectionVisible nodes f conn)
   \<and> (if connectionVisible nodes f conn
       then \<exists>src tgt. find (\<lambda>n. node_id n = source conn) nodes = Some src
              \<and> find (\<lambda>n. node_id n = target conn) nodes = Some tgt
              \<and> renderConnection isDark nodes f conn =
                  [BeginPath,
                   MoveTo (orZero (node_x src)) (orZero (node_y src)),
                   LineTo (orZero (node_x tgt)) (orZero (node_y tgt))]
                  @ (if isSurprising conn
                     then [SetStrokeStyle (if isDark then ''#fbbf24'' else ''#f59e0b''),
                           SetLineWidth 2, SetLineDash [5, 5]]
                     else [SetStrokeStyle (if isDark then ''#4b5563'' else ''#d1d5db''),
                           SetLineWidth 1, SetLineDash []])
                  @ [SetGlobalAlpha (strength conn), Stroke, SetGlobalAlpha 1]
       else renderConnection isDark nodes f conn = [])
   \<and> connectionVisible nodes f conn =
       (f \<le> strength conn \<and> source conn \<in> node_id ` set nodes \<and> target conn \<in> node_id ` set nodes)"
proof -
  have "\<exists>src tgt. find (\<lambda>n. node_id n = source conn) nodes = Some src
      \<and> find (\<lambda>n. node_id n = target conn) nodes = Some tgt
      \<and> renderConnection isDark nodes f conn =
          [BeginPath,
           MoveTo (orZero (node_x src)) (orZero (node_y src)),
           LineTo (orZero (node_x tgt)) (orZero (node_y tgt))]
          @ (if isSurprising conn
             then [SetStrokeStyle (if isDark then ''#fbbf24'' else ''#f59e0b''),
                   SetLineWidth 2, SetLineDash [5, 5]]
             else [SetStrokeStyle (if isDark then ''#4b5563'' else ''#d1d5db''),
                   SetLineWidth 1, SetLineDash []])
          @ [SetGlobalAlpha (strength conn), Stroke, SetGlobalAlpha 1]"
    if v: "connectionVisible nodes f conn"
  proof -
    from v obtain src tgt where "find (\<lambda>n. node_id n = source conn) nodes = Some src"
      "find (\<lambda>n. node_id n = target conn) nodes = Some tgt"
      using find_Some_iff_image [of node_id "source conn" nodes]
        find_Some_iff_image [of node_id "target conn" nodes]
      by (auto simp: connectionVisible_def)
    with v show ?thesis by (simp add: renderConnection_def connectionVisible_def)
  qed
  then show ?thesis
    using renderConnections_visible [of isDark conns nodes f]
      renderConnections_strokes [of isDark conns nodes f]
      renderConnection_empty [of isDark nodes f conn]
    by (simp add: connectionVisible_def [of nodes f conn])
qed

theorem renderConnections_filter_witness:
  "connectionVisible [exampleNode ''a'' 0 0, exampleNode ''b'' 100 0] (1/2) (exampleConnection ''a'' ''b'' (1/2))
   \<and> renderConnection False [exampleNode ''a'' 0 0, exampleNode ''b'' 100 0] (1/2) (exampleConnection ''a'' ''b'' (1/2))
       = [BeginPath, MoveTo 0 0, LineTo 100 0, SetStrokeStyle ''#d1d5db'', SetLineWidth 1, SetLineDash [],
          SetGlobalAlpha (1/2), Stroke, SetGlobalAlpha 1]
   \<and> renderConnections False
        [exampleConnection ''a'' ''b'' (1/2), exampleConnection ''a'' ''b'' (3/10), exampleConnection ''a'' ''zz'' 1]
        [exampleNode ''a'' 0 0, exampleNode ''b'' 100 0] (1/2)
       = renderConnection False [exampleNode ''a'' 0 0, exampleNode ''b'' 100 0] (1/2) (exampleConnection ''a'' ''b'' (1/2))"
proof -
  let ?ns = "[exampleNode ''a'' 0 0, exampleNode ''b'' 100 0]"
  let ?c1 = "exampleConnection ''a'' ''b'' (1/2)" and ?c2 = "exampleConnection ''a'' ''b'' (3/10)"
  let ?c3 = "exampleConnection ''a'' ''zz'' 1"
  have v: "connectionVisible ?ns (1/2) ?c1" "\<not> connectionVisible ?ns (1/2) ?c2" "\<not> connectionVisible ?ns (1/2) ?c3"
    by (simp_all add: connectionVisible_def exampleConnection_def exampleNode_def)
  have f: "find (\<lambda>n. node_id n = source ?c1) ?ns = Some (exampleNode ''a'' 0 0)"
    "find (\<lambda>n. node_id n = target ?c1) ?ns = Some (exampleNode ''b'' 100 0)"
    by (simp_all add: exampleConnection_def exampleNode_def)
  have p: "orZero (node_x (exampleNode ''a'' 0 0)) = 0" "orZero (node_y (exampleNode ''a'' 0 0)) = 0"
    "orZero (node_x (exampleNode ''b'' 100 0)) = 100" "orZero (node_y (exampleNode ''b'' 100 0)) = 0"
    "strength ?c1 = 1/2" "\<not> isSurprising ?c1"
    by (simp_all add: exampleConnection_def exampleNode_def orZero_def)
  note inst = renderConnections_filter [of False "[?c1, ?c2, ?c3]" ?ns "1/2" ?c1]
  from inst have "renderConnections False [?c1, ?c2, ?c3] ?ns (1/2) =
      concat (map (renderConnection False ?ns (1/2)) (filter (connectionVisible ?ns (1/2)) [?c1, ?c2, ?c3]))"
    by blast
  then have "renderConnections False [?c1, ?c2, ?c3] ?ns (1/2) = renderConnection False ?ns (1/2) ?c1"
    by (simp only: filter.simps v if_True if_False list.map concat.simps append_Nil2)
  moreover from inst v(1) obtain src tgt where st:
    "find (\<lambda>n. node_id n = source ?c1) ?ns = Some src"
    "find (\<lambda>n. node_id n = target ?c1) ?ns = Some tgt"
    "renderConnection False ?ns (1/2) ?c1 =
       [BeginPath, MoveTo (orZero (node_x src)) (orZero (node_y src)),
        LineTo (orZero (node_x tgt)) (orZero (node_y tgt))]
       @ (if isSurprising ?c1
          then [SetStrokeStyle (if False then ''#fbbf24'' else ''#f59e0b''), SetLineWidth 2, SetLineDash [5, 5]]
          else [SetStrokeStyle (if False then ''#4b5563'' else ''#d1d5db''), SetLineWidth 1, SetLineDash []])
       @ [SetGlobalAlpha (strength ?c1), Stroke, SetGlobalAlpha 1]"
    by (simp only: if_True) blast
  from st(1,2) f have "src = exampleNode ''a'' 0 0" "tgt = exampleNode ''b'' 100 0" by simp_all
  with st(3) have "renderConnection False ?ns (1/2) ?c1
      = [BeginPath, MoveTo 0 0, LineTo 100 0, SetStrokeStyle ''#d1d5db'', SetLineWidth 1, SetLineDash [],
         SetGlobalAlpha (1/2), Stroke, SetGlobalAlpha 1]"
    by (simp add: p)
  ultimately show ?thesis using v(1) by simp
qed

end
